theory Spec2Isabelle
  imports Complex_Main "HOL-Library.Word"
begin

unbundle bit_operations_syntax

section \<open>Platform constants\<close>

text \<open>
  The two sensor classes use constants of the Linux and Android platform headers
  (\<^verbatim>\<open>errno.h\<close>, \<^verbatim>\<open>linux/input.h\<close>, \<^verbatim>\<open>hardware/sensors.h\<close>), which are not files
  of the repository. They are written here with the values those headers give them.
\<close>

definition EINVAL :: int where
  "EINVAL = 22"

definition EV_SYN :: int where
  "EV_SYN = 0"

definition EV_REL :: int where
  "EV_REL = 2"

definition SENSOR_TYPE_META_DATA :: int where
  "SENSOR_TYPE_META_DATA = 0"

definition SENSOR_TYPE_GYROSCOPE :: int where
  "SENSOR_TYPE_GYROSCOPE = 4"

definition META_DATA_FLUSH_COMPLETE :: int where
  "META_DATA_FLUSH_COMPLETE = 1"

definition META_DATA_VERSION :: int where
  "META_DATA_VERSION = 2"

definition SENSOR_STATUS_ACCURACY_HIGH :: int where
  "SENSOR_STATUS_ACCURACY_HIGH = 3"

definition sizeof_sensors_event_t :: int where
  "sizeof_sensors_event_t = 104"

definition REPORTING_MODE_MASK :: "32 word" where
  "REPORTING_MODE_MASK = 0xE"

definition SENSOR_FLAG_ONE_SHOT_MODE :: "32 word" where
  "SENSOR_FLAG_ONE_SHOT_MODE = 4"

section \<open>The gyroscope sensor (src/8226/l3g4200d_hal.cpp)\<close>

subsection \<open>Data\<close>

text \<open>
  \<^verbatim>\<open>sensors_event_t\<close>, with the fields the gyroscope sensor touches. In C the gyro
  vector and the meta data are two views of one union; an event object of this class
  uses one view only (\<^verbatim>\<open>mPendingEvent\<close> the gyro view, \<^verbatim>\<open>mFlushEvent\<close> the meta
  data view), so the record keeps both as separate fields. The \<^verbatim>\<open>float\<close> readings
  are modelled as reals.
\<close>

record sensors_event_t =
  version :: int
  sensor :: int
  type :: int
  timestamp :: int
  gyro_x :: real
  gyro_y :: real
  gyro_z :: real
  gyro_status :: int
  meta_data_what :: int
  meta_data_sensor :: int

record timeval =
  tv_sec :: int
  tv_usec :: int

text \<open>\<^verbatim>\<open>struct input_event\<close> of the kernel: time, type, code, value.\<close>

record input_event =
  ie_time :: timeval
  ie_type :: int
  ie_code :: int
  ie_value :: int

text \<open>
  Constants of the repository's own headers (\<^verbatim>\<open>l3g4200d_hal.h\<close>, \<^verbatim>\<open>SensorBase.h\<close>),
  which are not among the source files: the sensor id, the axis codes, the conversion
  factors and the conversion of a \<^verbatim>\<open>timeval\<close> to nanoseconds. They are parameters of
  the model.
\<close>

record gyro_config =
  ID_G :: int
  EVENT_TYPE_GYRO_P :: int
  EVENT_TYPE_GYRO_R :: int
  EVENT_TYPE_GYRO_Y :: int
  CONVERT_G_P :: real
  CONVERT_G_R :: real
  CONVERT_G_Y :: real
  timevalToNano :: "timeval \<Rightarrow> int"

text \<open>
  The calls the sensor makes on the device, in order. The trace is a ghost field of the
  state: it records which device operations a method performed.
\<close>

datatype dev_op =
    DevOpen int
  | DevClose int
  | IoctlGetEnable
  | IoctlSetEnable int
  | IoctlSetDelay int

datatype log_msg =
    LogSetEnableFailed int
  | LogUnknownEvent int int

text \<open>
  The members of \<^verbatim>\<open>GyroSensor\<close>. \<^verbatim>\<open>mInputReader\<close> holds the input events that were
  read from the device and not yet consumed, oldest first; \<^verbatim>\<open>dev_fd\<close> is the
  descriptor of the control device, \<open>-1\<close> when closed.
\<close>

record GyroSensor =
  mEnabled :: int
  mFlushEnabled :: int
  mPendingEvent :: sensors_event_t
  mFlushEvent :: sensors_event_t
  mInputReader :: "input_event list"
  dev_fd :: int
  dev_ops :: "dev_op list"
  alog :: "log_msg list"

subsection \<open>The device handle\<close>

text \<open>
  Modelled from the spec: \<^verbatim>\<open>SensorBase::open_device\<close> and \<^verbatim>\<open>SensorBase::close_device\<close>
  are not among the source files. The spec: "acquire/open the device handle if not
  already open", and the handle is "released synchronously". \<open>fd\<close> is what
  \<^verbatim>\<open>open(2)\<close> returns when it is called (negative when it fails).
\<close>

definition open_device :: "int \<Rightarrow> GyroSensor \<Rightarrow> GyroSensor" where
  "open_device fd s =
     (if dev_fd s < 0 then s\<lparr>dev_fd := fd, dev_ops := dev_ops s @ [DevOpen fd]\<rparr> else s)"

definition close_device :: "GyroSensor \<Rightarrow> GyroSensor" where
  "close_device s =
     (if 0 \<le> dev_fd s then s\<lparr>dev_fd := -1, dev_ops := dev_ops s @ [DevClose (dev_fd s)]\<rparr>
      else s)"

text \<open>
  An \<^verbatim>\<open>ioctl\<close> on the device: the environment gives its return value and the
  \<^verbatim>\<open>errno\<close> it leaves, as a pair.
\<close>

type_synonym ioctl_result = "int \<times> int"

subsection \<open>Construction, enable, delay\<close>

definition initial_pending_event :: "gyro_config \<Rightarrow> sensors_event_t" where
  "initial_pending_event cfg =
     \<lparr>version = sizeof_sensors_event_t, sensor = ID_G cfg, type = SENSOR_TYPE_GYROSCOPE,
      timestamp = 0, gyro_x = 0, gyro_y = 0, gyro_z = 0,
      gyro_status = SENSOR_STATUS_ACCURACY_HIGH, meta_data_what = 0, meta_data_sensor = 0\<rparr>"

definition initial_flush_event :: "gyro_config \<Rightarrow> sensors_event_t" where
  "initial_flush_event cfg =
     \<lparr>version = META_DATA_VERSION, sensor = 0, type = SENSOR_TYPE_META_DATA,
      timestamp = 0, gyro_x = 0, gyro_y = 0, gyro_z = 0, gyro_status = 0,
      meta_data_what = META_DATA_FLUSH_COMPLETE, meta_data_sensor = ID_G cfg\<rparr>"

text \<open>
  The constructor. \<open>fd\<close> is the result of opening the device, \<open>io\<close> the result of the
  GET_ENABLE ioctl and \<open>flags\<close> the value that ioctl stores.
\<close>

definition GyroSensor_init :: "gyro_config \<Rightarrow> int \<Rightarrow> ioctl_result \<Rightarrow> int \<Rightarrow> GyroSensor" where
  "GyroSensor_init cfg fd io flags =
     (let s0 = \<lparr>mEnabled = 0, mFlushEnabled = 0,
                 mPendingEvent = initial_pending_event cfg,
                 mFlushEvent = initial_flush_event cfg,
                 mInputReader = [], dev_fd = -1, dev_ops = [], alog = []\<rparr>;
          s1 = open_device fd s0;
          s2 = s1\<lparr>dev_ops := dev_ops s1 @ [IoctlGetEnable]\<rparr>;
          s3 = (if fst io = 0 then (if flags \<noteq> 0 then s2\<lparr>mEnabled := 1\<rparr> else s2) else s2)
      in if mEnabled s3 = 0 then close_device s3 else s3)"

text \<open>
  \<^verbatim>\<open>setEnable(int32_t, int en)\<close>: \<open>fd\<close> and \<open>io\<close> are the results of the
  \<^verbatim>\<open>open\<close> and of the SET_ENABLE ioctl, used when the method calls them.
\<close>

definition GyroSensor_setEnable ::
  "int \<Rightarrow> ioctl_result \<Rightarrow> int \<Rightarrow> int \<Rightarrow> GyroSensor \<Rightarrow> int \<times> GyroSensor" where
  "GyroSensor_setEnable fd io handle en s =
     (let flags = (if en \<noteq> 0 then 1 else 0) in
      if flags \<noteq> mEnabled s then
        (let s1 = (if flags \<noteq> 0 then open_device fd s else s);
             s2 = s1\<lparr>dev_ops := dev_ops s1 @ [IoctlSetEnable flags]\<rparr>;
             err = (if fst io < 0 then - snd io else 0);
             s3 = (if err \<noteq> 0 then s2\<lparr>alog := alog s2 @ [LogSetEnableFailed err]\<rparr> else s2);
             s4 = (if err = 0 then s3\<lparr>mEnabled := flags\<rparr> else s3);
             s5 = (if flags = 0 then close_device s4 else s4)
         in (err, s5))
      else (0, s))"

definition GyroSensor_getEnable :: "int \<Rightarrow> GyroSensor \<Rightarrow> int" where
  "GyroSensor_getEnable handle s = mEnabled s"

text \<open>The conversion of a 64-bit quotient to \<^verbatim>\<open>int\<close> keeps the low 32 bits, signed.\<close>

definition to_int32 :: "int \<Rightarrow> int" where
  "to_int32 x = (x + 2 ^ 31) mod 2 ^ 32 - 2 ^ 31"

text \<open>
  \<^verbatim>\<open>setDelay(int32_t handle, int64_t ns)\<close>. The division is on a value that is not
  negative, where C's truncation and \<open>div\<close> agree.
\<close>

definition GyroSensor_setDelay ::
  "int \<Rightarrow> ioctl_result \<Rightarrow> int \<Rightarrow> int \<Rightarrow> GyroSensor \<Rightarrow> int \<times> GyroSensor" where
  "GyroSensor_setDelay fd io handle ns s =
     (if ns < 0 then (- EINVAL, s)
      else
        (let delay = to_int32 (ns div 1000000);
             s1 = (if mEnabled s = 0 \<and> dev_fd s = -1 then open_device fd s else s);
             s2 = s1\<lparr>dev_ops := dev_ops s1 @ [IoctlSetDelay delay]\<rparr>
         in if fst io \<noteq> 0 then (- snd io, s2)
            else (0, if mEnabled s2 = 0 then close_device s2 else s2)))"

definition GyroSensor_flush :: "int \<Rightarrow> GyroSensor \<Rightarrow> int \<times> GyroSensor" where
  "GyroSensor_flush handle s = (0, s\<lparr>mFlushEnabled := 1\<rparr>)"

subsection \<open>Reading events\<close>

definition processEvent :: "gyro_config \<Rightarrow> int \<Rightarrow> int \<Rightarrow> GyroSensor \<Rightarrow> GyroSensor" where
  "processEvent cfg code val s =
     (if code = EVENT_TYPE_GYRO_P cfg then
        s\<lparr>mPendingEvent := (mPendingEvent s)\<lparr>gyro_y := of_int val * CONVERT_G_P cfg\<rparr>\<rparr>
      else if code = EVENT_TYPE_GYRO_R cfg then
        s\<lparr>mPendingEvent := (mPendingEvent s)\<lparr>gyro_x := of_int val * CONVERT_G_R cfg\<rparr>\<rparr>
      else if code = EVENT_TYPE_GYRO_Y cfg then
        s\<lparr>mPendingEvent := (mPendingEvent s)\<lparr>gyro_z := of_int val * CONVERT_G_Y cfg\<rparr>\<rparr>
      else s)"

text \<open>
  Modelled from the spec: the class of \<^verbatim>\<open>mInputReader\<close> is not among the source
  files. The spec has the sensor process a "sequence of discrete events read from a
  device stream": the reader is the queue of the events read and not yet consumed.
  \<^verbatim>\<open>readEvent\<close> yields the oldest one when there is one (its result is then true),
  \<^verbatim>\<open>next\<close> drops it. What \<^verbatim>\<open>fill\<close> does is a parameter of \<^verbatim>\<open>readEvents\<close> below.
\<close>

definition readEvent :: "input_event list \<Rightarrow> input_event option" where
  "readEvent q = (case q of [] \<Rightarrow> None | e # _ \<Rightarrow> Some e)"

definition reader_next :: "input_event list \<Rightarrow> input_event list" where
  "reader_next q = tl q"

text \<open>
  The locals of \<^verbatim>\<open>readEvents\<close> that the loop changes: the capacity left, the number
  of events received and the events written through \<^verbatim>\<open>data\<close>, in the order written.
\<close>

record read_locals =
  count :: int
  numEventReceived :: int
  data :: "sensors_event_t list"

text \<open>
  One run of the body of the \<^verbatim>\<open>while\<close> loop on the event at the head of the reader,
  \<^verbatim>\<open>mInputReader.next()\<close> included.
\<close>

definition loop_body ::
  "gyro_config \<Rightarrow> input_event \<Rightarrow> read_locals \<times> GyroSensor \<Rightarrow> read_locals \<times> GyroSensor" where
  "loop_body cfg event ls =
     (let l = fst ls; s = snd ls;
          (l1, s1) =
            (if ie_type event = EV_REL then
               (l, processEvent cfg (ie_code event) (ie_value event) s)
             else if ie_type event = EV_SYN then
               (let s' = s\<lparr>mPendingEvent :=
                            (mPendingEvent s)\<lparr>timestamp := timevalToNano cfg (ie_time event)\<rparr>\<rparr>
                in if mEnabled s' \<noteq> 0 then
                     (l\<lparr>count := count l - 1, numEventReceived := numEventReceived l + 1,
                        data := data l @ [mPendingEvent s']\<rparr>, s')
                   else (l, s'))
             else
               (l, s\<lparr>alog := alog s @ [LogUnknownEvent (ie_type event) (ie_code event)]\<rparr>))
      in (l1, s1\<lparr>mInputReader := reader_next (mInputReader s1)\<rparr>))"

text \<open>The loop \<^verbatim>\<open>while (count && mInputReader.readEvent(&event))\<close>.\<close>

function event_loop :: "gyro_config \<Rightarrow> read_locals \<Rightarrow> GyroSensor \<Rightarrow> read_locals \<times> GyroSensor" where
  "event_loop cfg l s =
     (if count l \<noteq> 0 then
        (case readEvent (mInputReader s) of
           None \<Rightarrow> (l, s)
         | Some event \<Rightarrow>
             (let r = loop_body cfg event (l, s) in event_loop cfg (fst r) (snd r)))
      else (l, s))"
  by pat_completeness auto
termination
  by (relation "measure (\<lambda>(cfg, l, s). length (mInputReader s))")
     (auto simp: loop_body_def processEvent_def readEvent_def reader_next_def Let_def
        split: if_splits list.splits)

declare event_loop.simps [simp del]

text \<open>
  \<^verbatim>\<open>readEvents(sensors_event_t* data, int count)\<close>. \<open>filled\<close> is what
  \<^verbatim>\<open>mInputReader.fill(data_fd)\<close> does when it is called: the value it returns and the
  events the reader holds afterwards. The result is the value returned, the events
  written through \<^verbatim>\<open>data\<close> (whatever the value returned) and the sensor afterwards.
\<close>

definition GyroSensor_readEvents ::
  "gyro_config \<Rightarrow> int \<times> input_event list \<Rightarrow> int \<Rightarrow> GyroSensor
     \<Rightarrow> int \<times> sensors_event_t list \<times> GyroSensor" where
  "GyroSensor_readEvents cfg filled cnt s =
     (if cnt < 1 then (- EINVAL, [], s)
      else
        (let l0 = \<lparr>count = cnt, numEventReceived = 0, data = []\<rparr>;
             (l1, s1) =
               (if count l0 \<noteq> 0 \<and> mFlushEnabled s \<noteq> 0 then
                  (l0\<lparr>count := count l0 - 1, numEventReceived := numEventReceived l0 + 1,
                      data := data l0 @ [mFlushEvent s]\<rparr>,
                   s\<lparr>mFlushEnabled := 0\<rparr>)
                else (l0, s));
             n = fst filled;
             s2 = s1\<lparr>mInputReader := snd filled\<rparr>
         in if n < 0 then (n, data l1, s2)
            else (let (l3, s3) = event_loop cfg l1 s2 in (numEventReceived l3, data l3, s3))))"

text \<open>A run of \<^verbatim>\<open>flush\<close> calls, one per handle of the list.\<close>

fun flush_calls :: "int list \<Rightarrow> GyroSensor \<Rightarrow> GyroSensor" where
  "flush_calls [] s = s"
| "flush_calls (h # hs) s = flush_calls hs (snd (GyroSensor_flush h s))"

text \<open>
  What the constructor establishes about the two event objects and no method changes:
  the pending event is a gyroscope event, the flush event a meta data event.
\<close>

definition event_types_ok :: "GyroSensor \<Rightarrow> bool" where
  "event_types_ok s =
     (type (mPendingEvent s) = SENSOR_TYPE_GYROSCOPE \<and>
      type (mFlushEvent s) = SENSOR_TYPE_META_DATA)"

definition is_flush_marker :: "sensors_event_t \<Rightarrow> bool" where
  "is_flush_marker e = (type e = SENSOR_TYPE_META_DATA)"

text \<open>The input events the loop acts on: axis updates and syncs.\<close>

definition known_event :: "input_event \<Rightarrow> bool" where
  "known_event e = (ie_type e = EV_REL \<or> ie_type e = EV_SYN)"

text \<open>
  Notions for stating what a call of \<^verbatim>\<open>readEvents\<close> writes: the sync events; the
  pending event with its timestamp set from an event's time; the flush marker the call
  writes first, if one is pending; the capacity that is left for samples after it; and
  the sync events an enabled sensor reaches before that capacity is used up.
\<close>

definition is_sync :: "input_event \<Rightarrow> bool" where
  "is_sync e = (ie_type e = EV_SYN)"

definition commit_pending :: "gyro_config \<Rightarrow> sensors_event_t \<Rightarrow> input_event \<Rightarrow> sensors_event_t" where
  "commit_pending cfg p e = p\<lparr>timestamp := timevalToNano cfg (ie_time e)\<rparr>"

definition marker_part :: "GyroSensor \<Rightarrow> sensors_event_t list" where
  "marker_part s = (if mFlushEnabled s \<noteq> 0 then [mFlushEvent s] else [])"

definition capacity_left :: "int \<Rightarrow> GyroSensor \<Rightarrow> nat" where
  "capacity_left cnt s = nat (cnt - int (length (marker_part s)))"

definition syncs_read :: "int \<Rightarrow> GyroSensor \<Rightarrow> input_event list \<Rightarrow> input_event list" where
  "syncs_read cnt s evs = take (capacity_left cnt s) (filter is_sync evs)"

text \<open>The locals and the sensor with which a call whose fill succeeded enters the loop.\<close>

definition loop_entry_locals :: "int \<Rightarrow> GyroSensor \<Rightarrow> read_locals" where
  "loop_entry_locals cnt s =
     \<lparr>count = cnt - int (length (marker_part s)),
      numEventReceived = int (length (marker_part s)), data = marker_part s\<rparr>"

definition loop_entry_sensor :: "GyroSensor \<Rightarrow> input_event list \<Rightarrow> GyroSensor" where
  "loop_entry_sensor s evs =
     (if mFlushEnabled s \<noteq> 0 then s\<lparr>mFlushEnabled := 0\<rparr> else s)\<lparr>mInputReader := evs\<rparr>"

text \<open>What the loop keeps, relative to the locals and the sensor it starts from.\<close>

definition loop_inv :: "read_locals \<Rightarrow> GyroSensor \<Rightarrow> read_locals \<Rightarrow> GyroSensor \<Rightarrow> bool" where
  "loop_inv l0 s0 l s =
     (mFlushEnabled s = mFlushEnabled s0 \<and> mFlushEvent s = mFlushEvent s0 \<and>
      mEnabled s = mEnabled s0 \<and> type (mPendingEvent s) = type (mPendingEvent s0) \<and>
      0 \<le> count l \<and> numEventReceived l + count l = numEventReceived l0 + count l0 \<and>
      (\<exists>extra. data l = data l0 @ extra \<and>
         (\<forall>x \<in> set extra. type x = type (mPendingEvent s0)) \<and>
         int (length extra) = numEventReceived l - numEventReceived l0))"

section \<open>The buffered IIO sensor (src/motosh_hal/IioSensor.cpp)\<close>

subsection \<open>Data\<close>

text \<open>
  The calls the sensor makes on the IIO device and its buffer, in order (a ghost field
  of the state). A buffer is named by a number: the identity of the object
  \<^verbatim>\<open>iio_device_create_buffer\<close> returned.
\<close>

datatype iio_op =
    ChannelsEnable
  | ChannelsDisable
  | CreateBuffer nat
  | CreateBufferFailed
  | SetBlockingMode nat bool
  | DestroyBuffer nat
  | Refill nat
  | AttrWriteLonglong string int
  | AttrWriteDouble string real

text \<open>
  The members of \<^verbatim>\<open>IioSensor\<close> that the methods below read or write: the handle, type
  and flags of \<^verbatim>\<open>sensor\<close> (the flags are read from the device as a \<^verbatim>\<open>uint32_t\<close>),
  \<^verbatim>\<open>remaining_samples\<close> and \<^verbatim>\<open>iio_buf\<close> (\<open>None\<close> for \<^verbatim>\<open>nullptr\<close>). The type of
  \<^verbatim>\<open>remaining_samples\<close> is declared in a header that is not among the source files;
  the method logs it with \<^verbatim>\<open>%d\<close>, and it is modelled as an integer.
\<close>

record IioSensor =
  sensor_handle :: int
  sensor_type :: int
  sensor_flags :: "32 word"
  remaining_samples :: int
  iio_buf :: "nat option"
  iio_ops :: "iio_op list"

text \<open>
  An event written by \<^verbatim>\<open>IioSensor::readEvents\<close>. Its readings are decoded from the
  bytes of one record of the buffer; the model keeps where that record starts
  (\<open>record_at\<close>, the byte offset of the read cursor from \<^verbatim>\<open>iio_buffer_start\<close>) in
  place of the decoded channel values: the channel offsets and the conversion of each
  channel, which libiio does, are not part of the model.
\<close>

record iio_event =
  iio_version :: int
  iio_sensor :: int
  iio_type :: int
  record_at :: int
  iio_flags :: int

subsection \<open>Operations\<close>

definition IioSensor_init :: "int \<Rightarrow> int \<Rightarrow> 32 word \<Rightarrow> IioSensor" where
  "IioSensor_init handle ty flags =
     \<lparr>sensor_handle = handle, sensor_type = ty, sensor_flags = flags,
      remaining_samples = 0, iio_buf = None, iio_ops = []\<rparr>"

definition hasSensor :: "IioSensor \<Rightarrow> int \<Rightarrow> bool" where
  "hasSensor s handle = (sensor_handle s = handle)"

text \<open>C's integer division truncates towards zero.\<close>

definition c_div :: "int \<Rightarrow> int \<Rightarrow> int" where
  "c_div a b = sgn a * sgn b * (\<bar>a\<bar> div \<bar>b\<bar>)"

definition decode_record :: "IioSensor \<Rightarrow> int \<Rightarrow> iio_event" where
  "decode_record s start =
     \<lparr>iio_version = sizeof_sensors_event_t, iio_sensor = sensor_handle s,
      iio_type = sensor_type s, record_at = start, iio_flags = 0\<rparr>"

text \<open>
  The copy loop of \<^verbatim>\<open>readEvents\<close>:
  \<^verbatim>\<open>for (copied = 0; copied < remaining_samples && copied < count; ++copied, start += sample_size)\<close>.
  \<open>out\<close> is \<^verbatim>\<open>data[0 .. copied)\<close>.
\<close>

function copy_loop ::
  "IioSensor \<Rightarrow> int \<Rightarrow> int \<Rightarrow> int \<Rightarrow> int \<Rightarrow> iio_event list \<Rightarrow> int \<times> iio_event list" where
  "copy_loop s sample_size cnt copied start out =
     (if copied < remaining_samples s \<and> copied < cnt then
        copy_loop s sample_size cnt (copied + 1) (start + sample_size)
          (out @ [decode_record s start])
      else (copied, out))"
  by pat_completeness auto
termination
  by (relation "measure (\<lambda>(s, sample_size, cnt, copied, start, out). nat (cnt - copied))") auto

declare copy_loop.simps [simp del]

text \<open>
  \<^verbatim>\<open>readEvents(sensors_event_t* data, int count)\<close>. \<open>sample_size\<close> is what
  \<^verbatim>\<open>iio_device_get_sample_size\<close> returns and \<open>buffer_bytes\<close> what \<^verbatim>\<open>iio_buffer_refill\<close>
  returns when it is called. The result is \<open>None\<close> where the C++ has no defined
  behaviour (a null \<^verbatim>\<open>iio_buf\<close>, a division by zero); otherwise the value returned, the
  events written to \<^verbatim>\<open>data\<close> and the sensor afterwards. Addresses are offsets from
  \<^verbatim>\<open>iio_buffer_start(iio_buf)\<close>.
\<close>

definition copy_out :: "IioSensor \<Rightarrow> int \<Rightarrow> int \<Rightarrow> int \<Rightarrow> int \<times> iio_event list \<times> IioSensor" where
  "copy_out s sample_size cnt start =
     (let r = copy_loop s sample_size cnt 0 start []
      in (fst r, snd r, s\<lparr>remaining_samples := remaining_samples s - fst r\<rparr>))"

definition IioSensor_readEvents ::
  "int \<Rightarrow> int \<Rightarrow> int \<Rightarrow> IioSensor \<Rightarrow> (int \<times> iio_event list \<times> IioSensor) option" where
  "IioSensor_readEvents sample_size buffer_bytes cnt s =
     (case iio_buf s of
        None \<Rightarrow> None
      | Some b \<Rightarrow>
          if remaining_samples s = 0 then
            (let s1 = s\<lparr>iio_ops := iio_ops s @ [Refill b]\<rparr> in
             if buffer_bytes < 0 then Some (buffer_bytes, [], s1)
             else if sample_size = 0 then None
             else Some (copy_out (s1\<lparr>remaining_samples := c_div buffer_bytes sample_size\<rparr>)
                          sample_size cnt 0))
          else Some (copy_out s sample_size cnt (remaining_samples s * sample_size)))"

text \<open>
  \<^verbatim>\<open>setEnable(int32_t handle, int enabled)\<close>. \<open>created\<close> is what
  \<^verbatim>\<open>iio_device_create_buffer\<close> returns when it is called (\<open>None\<close> for a null pointer)
  and \<open>errno\<close> the error number it leaves then.
\<close>

definition IioSensor_setEnable ::
  "nat option \<Rightarrow> int \<Rightarrow> int \<Rightarrow> int \<Rightarrow> IioSensor \<Rightarrow> int \<times> IioSensor" where
  "IioSensor_setEnable created errno handle enabled s =
     (if \<not> hasSensor s handle then (- EINVAL, s)
      else if enabled \<noteq> 0 then
        (let s1 = s\<lparr>iio_ops := iio_ops s @ [ChannelsEnable]\<rparr> in
         case iio_buf s1 of
           Some b \<Rightarrow> (0, s1)
         | None \<Rightarrow>
             (case created of
                None \<Rightarrow> (- errno, s1\<lparr>iio_ops := iio_ops s1 @ [CreateBufferFailed]\<rparr>)
              | Some b \<Rightarrow>
                  (0, s1\<lparr>iio_buf := Some b,
                         iio_ops := iio_ops s1 @ [CreateBuffer b, SetBlockingMode b False]\<rparr>)))
      else
        (let s1 = s\<lparr>iio_ops := iio_ops s @ [ChannelsDisable]\<rparr> in
         case iio_buf s1 of
           Some b \<Rightarrow> (0, s1\<lparr>iio_buf := None, iio_ops := iio_ops s1 @ [DestroyBuffer b]\<rparr>)
         | None \<Rightarrow> (0, s1)))"

text \<open>
  \<^verbatim>\<open>batch(handle, flags, sampling_period_ns, max_report_latency_ns)\<close>. \<open>res_latency\<close>
  and \<open>res_freq\<close> are what the two attribute writes return. The period is compared as
  a \<^verbatim>\<open>double\<close> count of nanoseconds with one microsecond; the conversion of the
  64-bit period to \<^verbatim>\<open>double\<close> is monotone and exact at 1000, so the comparison is the
  one on integers. The frequency, a \<^verbatim>\<open>double\<close> quotient in the source, is modelled by
  the real quotient.
\<close>

definition IioSensor_batch ::
  "int \<Rightarrow> int \<Rightarrow> int \<Rightarrow> int \<Rightarrow> int \<Rightarrow> int \<Rightarrow> IioSensor \<Rightarrow> int \<times> IioSensor" where
  "IioSensor_batch res_latency res_freq handle flags sampling_period_ns max_report_latency_ns s =
     (if \<not> hasSensor s handle then (- EINVAL, s)
      else if sampling_period_ns < 1000 then (- EINVAL, s)
      else
        (let s1 = s\<lparr>iio_ops := iio_ops s @
                      [AttrWriteLonglong ''max_latency_ns'' max_report_latency_ns]\<rparr>;
             freq = 1000000000 / of_int sampling_period_ns;
             s2 = s1\<lparr>iio_ops := iio_ops s1 @ [AttrWriteDouble ''in_sampling_frequency'' freq]\<rparr>
         in (res_freq, s2)))"

text \<open>\<^verbatim>\<open>flush(int32_t handle)\<close>. \<open>res\<close> is what the attribute write returns.\<close>

definition IioSensor_flush :: "int \<Rightarrow> int \<Rightarrow> IioSensor \<Rightarrow> int \<times> IioSensor" where
  "IioSensor_flush res handle s =
     (if hasSensor s handle then
        (if sensor_flags s AND REPORTING_MODE_MASK = SENSOR_FLAG_ONE_SHOT_MODE then (- EINVAL, s)
         else (res, s\<lparr>iio_ops := iio_ops s @ [AttrWriteLonglong ''flush'' 1]\<rparr>))
      else (- EINVAL, s))"

section \<open>Concrete sensors and inputs\<close>

text \<open>A configuration with three distinct axis codes and the usual conversion of time.\<close>

definition example_cfg :: gyro_config where
  "example_cfg =
     \<lparr>ID_G = 7, EVENT_TYPE_GYRO_P = 3, EVENT_TYPE_GYRO_R = 4, EVENT_TYPE_GYRO_Y = 5,
      CONVERT_G_P = 1 / 2, CONVERT_G_R = 1 / 2, CONVERT_G_Y = 1 / 2,
      timevalToNano = (\<lambda>t. tv_sec t * 1000000000 + tv_usec t * 1000)\<rparr>"

text \<open>A gyroscope sensor constructed on a device that reports itself disabled,
  and one constructed on a device that reports itself enabled.\<close>

definition gyro_disabled :: GyroSensor where
  "gyro_disabled = GyroSensor_init example_cfg 3 (0, 0) 0"

definition gyro_enabled :: GyroSensor where
  "gyro_enabled = GyroSensor_init example_cfg 3 (0, 0) 1"

text \<open>A sync event, and an event that is neither an axis update nor a sync (a key event).\<close>

definition sync_event :: input_event where
  "sync_event = \<lparr>ie_time = \<lparr>tv_sec = 1, tv_usec = 2\<rparr>, ie_type = 0, ie_code = 0, ie_value = 0\<rparr>"

definition key_event :: input_event where
  "key_event = \<lparr>ie_time = \<lparr>tv_sec = 1, tv_usec = 0\<rparr>, ie_type = 1, ie_code = 30, ie_value = 1\<rparr>"

text \<open>An IIO sensor with handle 10 in continuous mode, constructed and then enabled
  (its buffer is buffer 1); and a one-shot wake-up sensor with the same handle.\<close>

definition iio_fresh :: IioSensor where
  "iio_fresh = IioSensor_init 10 65536 0"

definition iio_enabled :: IioSensor where
  "iio_enabled = snd (IioSensor_setEnable (Some 1) 0 10 1 iio_fresh)"

definition iio_one_shot :: IioSensor where
  "iio_one_shot = IioSensor_init 10 65536 5"

text \<open>
  The enabled sensor after a refill of three records of which two were read, and that
  sensor after it was disabled and enabled again (its new buffer is buffer 2).
\<close>

definition iio_part_read :: IioSensor where
  "iio_part_read = iio_enabled\<lparr>remaining_samples := 1,
     iio_ops := [ChannelsEnable, CreateBuffer 1, SetBlockingMode 1 False, Refill 1]\<rparr>"

definition iio_reenabled :: IioSensor where
  "iio_reenabled =
     snd (IioSensor_setEnable (Some 2) 0 10 1 (snd (IioSensor_setEnable None 0 10 0 iio_part_read)))"

text \<open>
  The locals of a \<^verbatim>\<open>readEvents\<close> with four places left, and the enabled gyroscope
  sensor with a sync event, or an event of another type, at the head of its reader.
\<close>

definition four_left :: read_locals where
  "four_left = \<lparr>count = 4, numEventReceived = 0, data = []\<rparr>"

definition gyro_sync_queued :: GyroSensor where
  "gyro_sync_queued = gyro_enabled\<lparr>mInputReader := [sync_event, key_event]\<rparr>"

definition gyro_key_queued :: GyroSensor where
  "gyro_key_queued = gyro_enabled\<lparr>mInputReader := [key_event]\<rparr>"

section \<open>Properties of the gyroscope sensor\<close>

subsection \<open>Enable and disable\<close>

lemma open_device_mEnabled: "mEnabled (open_device fd s) = mEnabled s"
  by (simp add: open_device_def)

lemma close_device_mEnabled: "mEnabled (close_device s) = mEnabled s"
  by (simp add: close_device_def)

lemma gyro_disabled_eq:
  "gyro_disabled =
     \<lparr>mEnabled = 0, mFlushEnabled = 0, mPendingEvent = initial_pending_event example_cfg,
      mFlushEvent = initial_flush_event example_cfg, mInputReader = [], dev_fd = -1,
      dev_ops = [DevOpen 3, IoctlGetEnable, DevClose 3], alog = []\<rparr>"
  by (simp add: gyro_disabled_def GyroSensor_init_def open_device_def close_device_def)

lemma gyro_enabled_eq:
  "gyro_enabled =
     \<lparr>mEnabled = 1, mFlushEnabled = 0, mPendingEvent = initial_pending_event example_cfg,
      mFlushEvent = initial_flush_event example_cfg, mInputReader = [], dev_fd = 3,
      dev_ops = [DevOpen 3, IoctlGetEnable], alog = []\<rparr>"
  by (simp add: gyro_enabled_def GyroSensor_init_def open_device_def close_device_def)

text \<open>
  Claim C10. A call of \<^verbatim>\<open>setEnable\<close> whose requested state (\<open>en\<close> read as a truth
  value) is the current one returns 0 and leaves the sensor as it was, the trace of
  device operations included: nothing is done on the device. A call whose ioctl fails
  (a negative return value, with a positive \<^verbatim>\<open>errno\<close>) leaves the state that
  \<^verbatim>\<open>getEnable\<close> reports as it was before the call, and returns the negated \<^verbatim>\<open>errno\<close>
  when the ioctl was made.
\<close>

theorem setEnable_idempotent_and_failure_keeps_state:
  "((if en \<noteq> 0 then 1 else 0) = mEnabled s \<longrightarrow>
      GyroSensor_setEnable fd io handle en s = (0, s)) \<and>
   (fst io < 0 \<and> 0 < snd io \<longrightarrow>
      GyroSensor_getEnable handle (snd (GyroSensor_setEnable fd io handle en s))
        = GyroSensor_getEnable handle s \<and>
      ((if en \<noteq> 0 then 1 else 0) \<noteq> mEnabled s \<longrightarrow>
         fst (GyroSensor_setEnable fd io handle en s) = - snd io))"
  by (simp add: GyroSensor_setEnable_def GyroSensor_getEnable_def Let_def
      open_device_mEnabled close_device_mEnabled)

theorem setEnable_idempotent_and_failure_keeps_state_witness:
  "GyroSensor_setEnable 3 (0, 0) 7 0 gyro_disabled = (0, gyro_disabled) \<and>
   GyroSensor_getEnable 7 (snd (GyroSensor_setEnable 3 (-1, 5) 7 1 gyro_disabled)) = 0 \<and>
   fst (GyroSensor_setEnable 3 (-1, 5) 7 1 gyro_disabled) = -5"
  using setEnable_idempotent_and_failure_keeps_state [of 0 gyro_disabled 3 "(0, 0)" 7]
    setEnable_idempotent_and_failure_keeps_state [of 1 gyro_disabled 3 "(-1, 5)" 7]
  by (simp add: gyro_disabled_eq GyroSensor_getEnable_def)

subsection \<open>Setting the delay\<close>

lemma setDelay_negative: "ns < 0 \<Longrightarrow> GyroSensor_setDelay fd io handle ns s = (- EINVAL, s)"
  by (simp add: GyroSensor_setDelay_def)

lemma setDelay_success_closes:
  "0 \<le> ns \<Longrightarrow> fst io = 0 \<Longrightarrow> mEnabled s = 0 \<Longrightarrow>
   dev_fd (snd (GyroSensor_setDelay fd io handle ns s)) < 0"
  by (auto simp: GyroSensor_setDelay_def Let_def open_device_def close_device_def)

lemma setDelay_failure_keeps_open:
  "0 \<le> ns \<Longrightarrow> fst io \<noteq> 0 \<Longrightarrow> mEnabled s = 0 \<Longrightarrow> dev_fd s = -1 \<Longrightarrow>
   GyroSensor_setDelay fd io handle ns s =
     (- snd io, s\<lparr>dev_fd := fd,
                   dev_ops := dev_ops s @ [DevOpen fd, IoctlSetDelay (to_int32 (ns div 1000000))]\<rparr>)"
  by (simp add: GyroSensor_setDelay_def Let_def open_device_def)

text \<open>
  Claim C8. The sensor is disabled and its device closed; \<^verbatim>\<open>setDelay\<close> of 5 ms opens
  the device (descriptor 3), the delay ioctl fails with \<^verbatim>\<open>errno\<close> 5, and the method
  returns \<open>-5\<close> with the device still open: the trace ends with the ioctl, and no close
  follows the open.
\<close>

theorem setDelay_failed_ioctl_leaves_device_open:
  "GyroSensor_setDelay 3 (-1, 5) 7 5000000 gyro_disabled =
     (-5, gyro_disabled\<lparr>dev_fd := 3,
            dev_ops := [DevOpen 3, IoctlGetEnable, DevClose 3, DevOpen 3, IoctlSetDelay 5]\<rparr>)"
  by (simp add: gyro_disabled_eq GyroSensor_setDelay_def Let_def open_device_def to_int32_def)

subsection \<open>Reading events\<close>

lemma event_loop_step:
  "count l \<noteq> 0 \<Longrightarrow> mInputReader s \<noteq> [] \<Longrightarrow>
   event_loop cfg l s =
     event_loop cfg (fst (loop_body cfg (hd (mInputReader s)) (l, s)))
       (snd (loop_body cfg (hd (mInputReader s)) (l, s)))"
  by (subst event_loop.simps) (simp add: Let_def readEvent_def split: list.splits)

lemma event_loop_stop:
  "count l = 0 \<or> mInputReader s = [] \<Longrightarrow> event_loop cfg l s = (l, s)"
  by (subst event_loop.simps) (auto simp: readEvent_def)

text \<open>An invariant of the loop body holds of the loop's result.\<close>

lemma event_loop_invariant:
  assumes init: "P l s"
    and step: "\<And>l s. P l s \<Longrightarrow> count l \<noteq> 0 \<Longrightarrow> mInputReader s \<noteq> [] \<Longrightarrow>
                 P (fst (loop_body cfg (hd (mInputReader s)) (l, s)))
                   (snd (loop_body cfg (hd (mInputReader s)) (l, s)))"
  shows "P (fst (event_loop cfg l s)) (snd (event_loop cfg l s))"
  using init step
proof (induction cfg l s rule: event_loop.induct)
  case (1 cfg l s)
  note st = "1.prems"(2)
  show ?case
  proof (cases "count l \<noteq> 0 \<and> mInputReader s \<noteq> []")
    case True
    then have c: "count l \<noteq> 0" and q: "mInputReader s \<noteq> []" by simp_all
    have "P (fst (loop_body cfg (hd (mInputReader s)) (l, s)))
            (snd (loop_body cfg (hd (mInputReader s)) (l, s)))"
      using st [OF "1.prems"(1) c q] .
    moreover have "readEvent (mInputReader s) = Some (hd (mInputReader s))"
      using q by (simp add: readEvent_def split: list.splits)
    ultimately show ?thesis
      using "1.IH" [OF c _ refl _ st] by (simp add: event_loop_step [OF c q])
  next
    case False
    then have "event_loop cfg l s = (l, s)" by (simp add: event_loop_stop)
    with "1.prems"(1) show ?thesis by simp
  qed
qed


lemma loop_body_frame:
  "mFlushEnabled (snd (loop_body cfg e (l, s))) = mFlushEnabled s"
  "mFlushEvent (snd (loop_body cfg e (l, s))) = mFlushEvent s"
  "mEnabled (snd (loop_body cfg e (l, s))) = mEnabled s"
  "type (mPendingEvent (snd (loop_body cfg e (l, s)))) = type (mPendingEvent s)"
  "mInputReader (snd (loop_body cfg e (l, s))) = tl (mInputReader s)"
  by (simp_all add: loop_body_def processEvent_def reader_next_def Let_def)

lemma loop_body_counts:
  "0 < count l \<Longrightarrow>
   0 \<le> count (fst (loop_body cfg e (l, s))) \<and>
   numEventReceived (fst (loop_body cfg e (l, s))) + count (fst (loop_body cfg e (l, s)))
     = numEventReceived l + count l"
  by (simp add: loop_body_def Let_def)

lemma loop_body_data:
  "\<exists>extra. data (fst (loop_body cfg e (l, s))) = data l @ extra \<and>
     (\<forall>x \<in> set extra. type x = type (mPendingEvent s)) \<and>
     int (length extra) = numEventReceived (fst (loop_body cfg e (l, s))) - numEventReceived l"
  by (simp add: loop_body_def processEvent_def Let_def)

lemma loop_inv_step:
  assumes "loop_inv l0 s0 l s" "count l \<noteq> 0"
  shows "loop_inv l0 s0 (fst (loop_body cfg e (l, s))) (snd (loop_body cfg e (l, s)))"
proof -
  from assms have pos: "0 < count l" by (simp add: loop_inv_def)
  from assms(1) obtain extra where ex: "data l = data l0 @ extra"
      "\<forall>x \<in> set extra. type x = type (mPendingEvent s0)"
      "int (length extra) = numEventReceived l - numEventReceived l0"
    by (auto simp: loop_inv_def)
  obtain extra' where ex': "data (fst (loop_body cfg e (l, s))) = data l @ extra'"
      "\<forall>x \<in> set extra'. type x = type (mPendingEvent s)"
      "int (length extra') = numEventReceived (fst (loop_body cfg e (l, s))) - numEventReceived l"
    using loop_body_data [of cfg e l s] by blast
  have ty: "type (mPendingEvent s) = type (mPendingEvent s0)"
    using assms(1) by (simp add: loop_inv_def)
  have d: "data (fst (loop_body cfg e (l, s))) = data l0 @ (extra @ extra')"
    using ex(1) ex'(1) by simp
  have t: "\<forall>x \<in> set (extra @ extra'). type x = type (mPendingEvent s0)"
    using ex(2) ex'(2) ty by auto
  have n: "int (length (extra @ extra'))
             = numEventReceived (fst (loop_body cfg e (l, s))) - numEventReceived l0"
    using ex(3) ex'(3) by simp
  have "\<exists>x. data (fst (loop_body cfg e (l, s))) = data l0 @ x \<and>
          (\<forall>y \<in> set x. type y = type (mPendingEvent s0)) \<and>
          int (length x) = numEventReceived (fst (loop_body cfg e (l, s))) - numEventReceived l0"
    using d t n by blast
  then show ?thesis
    using assms(1) loop_body_counts [OF pos, of cfg e s]
    by (simp add: loop_inv_def loop_body_frame)
qed

lemma event_loop_inv:
  assumes "0 \<le> count l"
  shows "loop_inv l s (fst (event_loop cfg l s)) (snd (event_loop cfg l s))"
proof (rule event_loop_invariant)
  show "loop_inv l s l s" using assms by (simp add: loop_inv_def)
next
  fix l' s'
  assume "loop_inv l s l' s'" "count l' \<noteq> 0" "mInputReader s' \<noteq> []"
  then show "loop_inv l s (fst (loop_body cfg (hd (mInputReader s')) (l', s')))
               (snd (loop_body cfg (hd (mInputReader s')) (l', s')))"
    by (simp add: loop_inv_step)
qed

text \<open>The shape of what one call of readEvents with a capacity of at least 1 does.\<close>

lemma readEvents_shape:
  assumes "1 \<le> cnt"
  shows "\<exists>rest. fst (snd (GyroSensor_readEvents cfg filled cnt s))
                  = (if mFlushEnabled s \<noteq> 0 then [mFlushEvent s] else []) @ rest \<and>
           (\<forall>x \<in> set rest. type x = type (mPendingEvent s)) \<and>
           mFlushEnabled (snd (snd (GyroSensor_readEvents cfg filled cnt s))) = 0 \<and>
           mFlushEvent (snd (snd (GyroSensor_readEvents cfg filled cnt s))) = mFlushEvent s \<and>
           mEnabled (snd (snd (GyroSensor_readEvents cfg filled cnt s))) = mEnabled s \<and>
           type (mPendingEvent (snd (snd (GyroSensor_readEvents cfg filled cnt s))))
             = type (mPendingEvent s) \<and>
           (if fst filled < 0 then fst (GyroSensor_readEvents cfg filled cnt s) = fst filled \<and> rest = []
            else fst (GyroSensor_readEvents cfg filled cnt s)
                   = int (length (fst (snd (GyroSensor_readEvents cfg filled cnt s)))) \<and>
                 fst (GyroSensor_readEvents cfg filled cnt s) \<le> cnt)"
proof -
  define l1 where "l1 = (if mFlushEnabled s \<noteq> 0
     then \<lparr>count = cnt - 1, numEventReceived = 1, data = [mFlushEvent s]\<rparr>
     else \<lparr>count = cnt, numEventReceived = 0, data = []\<rparr>)"
  define s2 where "s2 = (if mFlushEnabled s \<noteq> 0 then s\<lparr>mFlushEnabled := 0\<rparr> else s)
                          \<lparr>mInputReader := snd filled\<rparr>"
  have s2: "mFlushEnabled s2 = 0" "mFlushEvent s2 = mFlushEvent s" "mEnabled s2 = mEnabled s"
      "mPendingEvent s2 = mPendingEvent s"
    by (simp_all add: s2_def)
  have c: "0 \<le> count l1" using assms by (simp add: l1_def)
  have unfold: "GyroSensor_readEvents cfg filled cnt s =
      (if fst filled < 0 then (fst filled, data l1, s2)
       else (numEventReceived (fst (event_loop cfg l1 s2)), data (fst (event_loop cfg l1 s2)),
             snd (event_loop cfg l1 s2)))"
    using assms
    by (cases "mFlushEnabled s = 0")
       (simp_all add: GyroSensor_readEvents_def l1_def s2_def Let_def split_beta)
  show ?thesis
  proof (cases "fst filled < 0")
    case True
    then show ?thesis
      unfolding unfold by (simp add: l1_def s2)
  next
    case False
    have inv: "loop_inv l1 s2 (fst (event_loop cfg l1 s2)) (snd (event_loop cfg l1 s2))"
      using event_loop_inv [OF c] .
    then obtain extra where ex: "data (fst (event_loop cfg l1 s2)) = data l1 @ extra"
        "\<forall>x \<in> set extra. type x = type (mPendingEvent s2)"
        "int (length extra) = numEventReceived (fst (event_loop cfg l1 s2)) - numEventReceived l1"
      by (auto simp: loop_inv_def)
    have len: "numEventReceived (fst (event_loop cfg l1 s2))
                 = int (length (data (fst (event_loop cfg l1 s2))))"
      using ex(1) ex(3) by (simp add: l1_def split: if_splits)
    have le: "numEventReceived (fst (event_loop cfg l1 s2)) \<le> cnt"
      using inv by (simp add: loop_inv_def l1_def split: if_splits)
    have "fst (snd (GyroSensor_readEvents cfg filled cnt s))
            = (if mFlushEnabled s \<noteq> 0 then [mFlushEvent s] else []) @ extra"
      using False ex(1) by (simp add: unfold l1_def)
    moreover have "\<forall>x \<in> set extra. type x = type (mPendingEvent s)"
      using ex(2) by (simp add: s2)
    ultimately show ?thesis
      using False inv len le
      by (intro exI [of _ extra]) (simp add: unfold loop_inv_def s2)
  qed
qed


lemma flush_calls_eq:
  "flush_calls hs s = (if hs = [] then s else s\<lparr>mFlushEnabled := 1\<rparr>)"
  by (induction hs arbitrary: s) (simp_all add: GyroSensor_flush_def)

lemma readEvents_below_one:
  "cnt < 1 \<Longrightarrow> GyroSensor_readEvents cfg filled cnt s = (- EINVAL, [], s)"
  by (simp add: GyroSensor_readEvents_def)

lemma readEvents_no_marker_when_clear:
  assumes "mFlushEnabled s = 0" "type (mPendingEvent s) = SENSOR_TYPE_GYROSCOPE"
  shows "filter is_flush_marker (fst (snd (GyroSensor_readEvents cfg filled cnt s))) = []"
proof (cases "cnt < 1")
  case True
  then show ?thesis by (simp add: readEvents_below_one)
next
  case False
  then have "1 \<le> cnt" by simp
  from readEvents_shape [OF this, of cfg filled s] assms
  obtain rest where "fst (snd (GyroSensor_readEvents cfg filled cnt s)) = rest"
      "\<forall>x \<in> set rest. type x = SENSOR_TYPE_GYROSCOPE"
    by auto
  then show ?thesis
    by (simp add: is_flush_marker_def SENSOR_TYPE_GYROSCOPE_def SENSOR_TYPE_META_DATA_def
        filter_empty_conv)
qed

text \<open>
  The constructor establishes \<open>event_types_ok\<close> and every method keeps it: it holds of
  every sensor a program can reach.
\<close>

lemma init_event_types_ok: "event_types_ok (GyroSensor_init cfg fd io flags)"
  by (simp add: event_types_ok_def GyroSensor_init_def Let_def open_device_def close_device_def
      initial_pending_event_def initial_flush_event_def)

lemma setEnable_event_types_ok:
  "event_types_ok s \<Longrightarrow> event_types_ok (snd (GyroSensor_setEnable fd io handle en s))"
  by (simp add: event_types_ok_def GyroSensor_setEnable_def Let_def open_device_def
      close_device_def)

lemma setDelay_event_types_ok:
  "event_types_ok s \<Longrightarrow> event_types_ok (snd (GyroSensor_setDelay fd io handle ns s))"
  by (simp add: event_types_ok_def GyroSensor_setDelay_def Let_def open_device_def
      close_device_def)

lemma flush_event_types_ok:
  "event_types_ok s \<Longrightarrow> event_types_ok (snd (GyroSensor_flush handle s))"
  by (simp add: event_types_ok_def GyroSensor_flush_def)

lemma readEvents_event_types_ok:
  assumes "event_types_ok s"
  shows "event_types_ok (snd (snd (GyroSensor_readEvents cfg filled cnt s)))"
proof (cases "cnt < 1")
  case True
  then show ?thesis using assms by (simp add: readEvents_below_one)
next
  case False
  then have "1 \<le> cnt" by simp
  from readEvents_shape [OF this, of cfg filled s] assms
  show ?thesis by (auto simp: event_types_ok_def)
qed

lemma readEvents_fill_error:
  "1 \<le> cnt \<Longrightarrow> fst filled < 0 \<Longrightarrow>
   fst (GyroSensor_readEvents cfg filled cnt s) = fst filled"
  by (simp add: GyroSensor_readEvents_def Let_def split_beta)

lemma marker_run_value:
  "GyroSensor_readEvents example_cfg (1, [sync_event]) 4 (flush_calls [7, 7] gyro_enabled) =
     (2, [initial_flush_event example_cfg,
          (initial_pending_event example_cfg)\<lparr>timestamp := 1000002000\<rparr>],
      gyro_enabled\<lparr>mPendingEvent := (initial_pending_event example_cfg)\<lparr>timestamp := 1000002000\<rparr>\<rparr>)"
  by (simp add: gyro_enabled_eq GyroSensor_readEvents_def GyroSensor_flush_def Let_def
      event_loop_step event_loop_stop loop_body_def reader_next_def sync_event_def EV_REL_def
      EV_SYN_def example_cfg_def)

text \<open>
  Claim C4. The sensor is in a state as the constructor leaves the two event objects
  (\<open>event_types_ok\<close>). After one or more \<^verbatim>\<open>flush\<close> calls, a \<^verbatim>\<open>readEvents\<close> with a
  capacity of at least 1 writes a batch \<open>d\<close> that is not empty, whose first element is
  the flush event of the sensor, a flush marker, and which holds exactly one flush
  marker however many \<^verbatim>\<open>flush\<close> calls were made; when the fill did not fail the value
  returned is the length of that batch. The call leaves the pending-flush flag
  cleared, and every later \<^verbatim>\<open>readEvents\<close> on the sensor it leaves (whatever the fill
  gives and whatever the capacity) writes no flush marker.
\<close>

theorem flush_marker_once_and_first:
  assumes "event_types_ok s" and "hs \<noteq> []" and "1 \<le> cnt"
  shows "case GyroSensor_readEvents cfg filled cnt (flush_calls hs s) of
           (r, d, s') \<Rightarrow>
             d \<noteq> [] \<and> hd d = mFlushEvent s \<and> is_flush_marker (hd d) \<and>
             length (filter is_flush_marker d) = 1 \<and>
             (0 \<le> fst filled \<longrightarrow> r = int (length d)) \<and>
             mFlushEnabled s' = 0 \<and>
             (\<forall>filled' cnt'.
                filter is_flush_marker (fst (snd (GyroSensor_readEvents cfg filled' cnt' s'))) = [])"
proof -
  define f where "f = flush_calls hs s"
  define res where "res = GyroSensor_readEvents cfg filled cnt f"
  have f: "mFlushEnabled f = 1" "mFlushEvent f = mFlushEvent s"
      "mPendingEvent f = mPendingEvent s"
    using assms(2) by (simp_all add: f_def flush_calls_eq)
  have ty: "type (mPendingEvent s) = SENSOR_TYPE_GYROSCOPE"
      "type (mFlushEvent s) = SENSOR_TYPE_META_DATA"
    using assms(1) by (simp_all add: event_types_ok_def)
  from readEvents_shape [OF assms(3), of cfg filled f]
  obtain rest where sh: "fst (snd res) = mFlushEvent s # rest"
      "\<forall>x \<in> set rest. type x = SENSOR_TYPE_GYROSCOPE"
      "mFlushEnabled (snd (snd res)) = 0"
      "type (mPendingEvent (snd (snd res))) = SENSOR_TYPE_GYROSCOPE"
      "if fst filled < 0 then fst res = fst filled \<and> rest = []
       else fst res = int (length (fst (snd res))) \<and> fst res \<le> cnt"
    unfolding res_def [symmetric] using f ty by auto
  have none: "filter is_flush_marker rest = []"
    using sh(2)
    by (simp add: is_flush_marker_def SENSOR_TYPE_GYROSCOPE_def SENSOR_TYPE_META_DATA_def
        filter_empty_conv)
  have one: "length (filter is_flush_marker (fst (snd res))) = 1"
    using none ty(2) by (simp add: sh(1) is_flush_marker_def)
  have later: "\<forall>filled' cnt'.
      filter is_flush_marker (fst (snd (GyroSensor_readEvents cfg filled' cnt' (snd (snd res))))) = []"
    using readEvents_no_marker_when_clear [OF sh(3) sh(4)] by blast
  have ret: "0 \<le> fst filled \<longrightarrow> fst res = int (length (fst (snd res)))"
    using sh(5) by (simp split: if_splits)
  show ?thesis
    unfolding f_def [symmetric] res_def [symmetric]
    using sh(1) sh(3) one later ret ty(2)
    by (simp add: split_beta is_flush_marker_def)
qed

theorem flush_marker_once_and_first_witness:
  "event_types_ok gyro_enabled \<and> [7, 7] \<noteq> ([] :: int list) \<and> (1 :: int) \<le> 4 \<and>
   (case GyroSensor_readEvents example_cfg (1, [sync_event]) 4 (flush_calls [7, 7] gyro_enabled) of
      (r, d, s') \<Rightarrow>
        d \<noteq> [] \<and> hd d = mFlushEvent gyro_enabled \<and> is_flush_marker (hd d) \<and>
        length (filter is_flush_marker d) = 1 \<and>
        (0 \<le> fst (1 :: int, [sync_event]) \<longrightarrow> r = int (length d)) \<and>
        mFlushEnabled s' = 0 \<and>
        (\<forall>filled' cnt'.
           filter is_flush_marker
             (fst (snd (GyroSensor_readEvents example_cfg filled' cnt' s'))) = [])) \<and>
   GyroSensor_readEvents example_cfg (1, [sync_event]) 4 (flush_calls [7, 7] gyro_enabled) =
     (2, [initial_flush_event example_cfg,
          (initial_pending_event example_cfg)\<lparr>timestamp := 1000002000\<rparr>],
      gyro_enabled\<lparr>mPendingEvent := (initial_pending_event example_cfg)\<lparr>timestamp := 1000002000\<rparr>\<rparr>)"
proof -
  have h: "event_types_ok gyro_enabled"
    by (simp add: event_types_ok_def gyro_enabled_eq initial_pending_event_def
        initial_flush_event_def)
  have n: "[7, 7] \<noteq> ([] :: int list)" by simp
  have c: "(1 :: int) \<le> 4" by simp
  show ?thesis
    using h n c marker_run_value
      flush_marker_once_and_first [OF h n c, where cfg = example_cfg and filled = "(1, [sync_event])"]
    by blast
qed

text \<open>
  Claim C2. The sensor is enabled and \<^verbatim>\<open>flush\<close> has been called; \<^verbatim>\<open>readEvents\<close> with
  capacity 4 writes the flush marker and clears the flag, the fill then fails with
  \<open>-5\<close>, and the method returns \<open>-5\<close>, not 1. The sensor it leaves is the one before
  the \<^verbatim>\<open>flush\<close>: the next \<^verbatim>\<open>readEvents\<close> reports no marker.
\<close>

theorem readEvents_error_after_marker_loses_marker:
  "GyroSensor_readEvents example_cfg (-5, []) 4 (snd (GyroSensor_flush 7 gyro_enabled)) =
     (-5, [initial_flush_event example_cfg], gyro_enabled) \<and>
   GyroSensor_readEvents example_cfg (0, []) 4 gyro_enabled = (0, [], gyro_enabled)"
  by (simp add: gyro_enabled_eq GyroSensor_readEvents_def GyroSensor_flush_def Let_def
      event_loop_stop)

lemma loop_body_sync:
  "ie_type e = EV_SYN \<Longrightarrow>
   loop_body cfg e (l, s) =
     (if mEnabled s \<noteq> 0 then
        l\<lparr>count := count l - 1, numEventReceived := numEventReceived l + 1,
          data := data l @ [(mPendingEvent s)\<lparr>timestamp := timevalToNano cfg (ie_time e)\<rparr>]\<rparr>
      else l,
      s\<lparr>mPendingEvent := (mPendingEvent s)\<lparr>timestamp := timevalToNano cfg (ie_time e)\<rparr>,
        mInputReader := tl (mInputReader s)\<rparr>)"
  by (simp add: loop_body_def reader_next_def Let_def EV_SYN_def EV_REL_def)

lemma loop_body_unknown:
  "ie_type e \<noteq> EV_REL \<Longrightarrow> ie_type e \<noteq> EV_SYN \<Longrightarrow>
   loop_body cfg e (l, s) =
     (l, s\<lparr>alog := alog s @ [LogUnknownEvent (ie_type e) (ie_code e)],
           mInputReader := tl (mInputReader s)\<rparr>)"
  by (simp add: loop_body_def reader_next_def Let_def)

lemma loop_body_known_frame:
  "known_event e \<Longrightarrow>
   loop_body cfg e (l, s\<lparr>alog := a, mInputReader := r\<rparr>) =
     (fst (loop_body cfg e (l, s)),
      (snd (loop_body cfg e (l, s)))\<lparr>alog := a, mInputReader := tl r\<rparr>)"
  by (auto simp: known_event_def loop_body_def processEvent_def reader_next_def Let_def)

lemma event_loop_ignores_unknown:
  "fst (event_loop cfg l (s\<lparr>alog := a, mInputReader := q\<rparr>))
     = fst (event_loop cfg l (s\<lparr>alog := a', mInputReader := filter known_event q\<rparr>)) \<and>
   mPendingEvent (snd (event_loop cfg l (s\<lparr>alog := a, mInputReader := q\<rparr>)))
     = mPendingEvent (snd (event_loop cfg l (s\<lparr>alog := a', mInputReader := filter known_event q\<rparr>)))"
proof (induction q arbitrary: l s a a')
  case Nil
  show ?case by (simp add: event_loop_stop)
next
  case (Cons e q)
  show ?case
  proof (cases "count l = 0")
    case True
    then show ?thesis by (simp add: event_loop_stop)
  next
    case False
    show ?thesis
    proof (cases "known_event e")
      case True
      define l' where "l' = fst (loop_body cfg e (l, s))"
      define s' where "s' = snd (loop_body cfg e (l, s))"
      have lhs: "event_loop cfg l (s\<lparr>alog := a, mInputReader := e # q\<rparr>)
                   = event_loop cfg l' (s'\<lparr>alog := a, mInputReader := q\<rparr>)"
        using False
        by (simp add: event_loop_step loop_body_known_frame [OF True] l'_def s'_def)
      have rhs: "event_loop cfg l (s\<lparr>alog := a', mInputReader := filter known_event (e # q)\<rparr>)
                   = event_loop cfg l' (s'\<lparr>alog := a', mInputReader := filter known_event q\<rparr>)"
        using False True
        by (simp add: event_loop_step loop_body_known_frame [OF True] l'_def s'_def)
      show ?thesis unfolding lhs rhs by (rule Cons.IH)
    next
      case unk: False
      then have ty: "ie_type e \<noteq> EV_REL" "ie_type e \<noteq> EV_SYN"
        by (simp_all add: known_event_def)
      have lhs: "event_loop cfg l (s\<lparr>alog := a, mInputReader := e # q\<rparr>)
                   = event_loop cfg l
                       (s\<lparr>alog := a @ [LogUnknownEvent (ie_type e) (ie_code e)],
                          mInputReader := q\<rparr>)"
        using False by (simp add: event_loop_step loop_body_unknown [OF ty])
      have rhs: "filter known_event (e # q) = filter known_event q"
        using unk by simp
      show ?thesis unfolding lhs rhs by (rule Cons.IH)
    qed
  qed
qed

lemma readEvents_ignores_unknown:
  "fst (GyroSensor_readEvents cfg (n, evs) cnt g)
     = fst (GyroSensor_readEvents cfg (n, filter known_event evs) cnt g) \<and>
   fst (snd (GyroSensor_readEvents cfg (n, evs) cnt g))
     = fst (snd (GyroSensor_readEvents cfg (n, filter known_event evs) cnt g)) \<and>
   mPendingEvent (snd (snd (GyroSensor_readEvents cfg (n, evs) cnt g)))
     = mPendingEvent (snd (snd (GyroSensor_readEvents cfg (n, filter known_event evs) cnt g)))"
proof -
  have upd: "\<And>s q. s\<lparr>mInputReader := q\<rparr> = s\<lparr>alog := alog s, mInputReader := q\<rparr>"
    by simp
  have key: "\<And>l s. fst (event_loop cfg l (s\<lparr>mInputReader := evs\<rparr>))
        = fst (event_loop cfg l (s\<lparr>mInputReader := filter known_event evs\<rparr>)) \<and>
      mPendingEvent (snd (event_loop cfg l (s\<lparr>mInputReader := evs\<rparr>)))
        = mPendingEvent (snd (event_loop cfg l (s\<lparr>mInputReader := filter known_event evs\<rparr>)))"
  proof -
    fix l s
    show "fst (event_loop cfg l (s\<lparr>mInputReader := evs\<rparr>))
        = fst (event_loop cfg l (s\<lparr>mInputReader := filter known_event evs\<rparr>)) \<and>
      mPendingEvent (snd (event_loop cfg l (s\<lparr>mInputReader := evs\<rparr>)))
        = mPendingEvent (snd (event_loop cfg l (s\<lparr>mInputReader := filter known_event evs\<rparr>)))"
      using event_loop_ignores_unknown [where cfg = cfg and l = l and s = s and q = evs
          and a = "alog s" and a' = "alog s"]
      by simp
  qed
  show ?thesis
    by (simp add: GyroSensor_readEvents_def Let_def split_beta key)
qed

lemma loop_body_rel:
  "ie_type e = EV_REL \<Longrightarrow>
   fst (loop_body cfg e (l, s)) = l \<and>
   mEnabled (snd (loop_body cfg e (l, s))) = mEnabled s \<and>
   mInputReader (snd (loop_body cfg e (l, s))) = tl (mInputReader s) \<and>
   alog (snd (loop_body cfg e (l, s))) = alog s \<and>
   timestamp (mPendingEvent (snd (loop_body cfg e (l, s)))) = timestamp (mPendingEvent s)"
  by (simp add: loop_body_def processEvent_def reader_next_def Let_def)

text \<open>Induction along the loop: one case where it stops, one per event it processes.\<close>

lemma event_loop_cases_induct:
  assumes stop: "\<And>l s. count l = 0 \<or> mInputReader s = [] \<Longrightarrow> P l s"
    and step: "\<And>l s e q. count l \<noteq> 0 \<Longrightarrow> mInputReader s = e # q \<Longrightarrow>
                 P (fst (loop_body cfg e (l, s))) (snd (loop_body cfg e (l, s))) \<Longrightarrow> P l s"
  shows "P l s"
proof (induction "length (mInputReader s)" arbitrary: l s)
  case 0
  then show ?case by (simp add: stop)
next
  case (Suc n)
  then obtain e q where eq: "mInputReader s = e # q" and n: "length q = n"
    by (cases "mInputReader s") auto
  show ?case
  proof (cases "count l = 0")
    case True
    then show ?thesis by (simp add: stop)
  next
    case False
    have "n = length (mInputReader (snd (loop_body cfg e (l, s))))"
      using eq n by (simp add: loop_body_frame)
    then have "P (fst (loop_body cfg e (l, s))) (snd (loop_body cfg e (l, s)))"
      by (rule Suc.hyps(1))
    then show ?thesis using False eq by (rule step [rotated 2])
  qed
qed

lemma event_loop_unfold:
  "count l \<noteq> 0 \<Longrightarrow> mInputReader s = e # q \<Longrightarrow>
   event_loop cfg l s =
     event_loop cfg (fst (loop_body cfg e (l, s))) (snd (loop_body cfg e (l, s)))"
  using event_loop_step [of l s cfg] by simp


lemma commit_pending_twice: "commit_pending cfg (commit_pending cfg p e) e' = commit_pending cfg p e'"
  by (simp add: commit_pending_def)

lemma take_nat_pos:
  "0 < (c :: int) \<Longrightarrow> take (nat c) (x # xs) = x # take (nat (c - 1)) xs"
  by (cases "nat c") (simp_all add: nat_diff_distrib')

text \<open>An enabled sensor: each sync event the loop reaches, up to the capacity, is written
  with its own time.\<close>

lemma event_loop_enabled_timestamps:
  "mEnabled s \<noteq> 0 \<longrightarrow> 0 \<le> count l \<longrightarrow>
   (\<exists>D. data (fst (event_loop cfg l s)) = data l @ D \<and>
      map timestamp D = map (\<lambda>e. timevalToNano cfg (ie_time e))
                          (take (nat (count l)) (filter is_sync (mInputReader s))) \<and>
      numEventReceived (fst (event_loop cfg l s)) = numEventReceived l + int (length D))"
proof (induction l s rule: event_loop_cases_induct [where cfg = cfg])
  case (1 l s)
  then show ?case by (auto simp: event_loop_stop)
next
  case (2 l s e q)
  show ?case
  proof (intro impI)
    assume en: "mEnabled s \<noteq> 0" and c: "0 \<le> count l"
    from c "2.hyps"(1) have pos: "0 < count l" by simp
    note unf = event_loop_unfold [OF "2.hyps"(1,2), of cfg]
    show "\<exists>D. data (fst (event_loop cfg l s)) = data l @ D \<and>
      map timestamp D = map (\<lambda>e. timevalToNano cfg (ie_time e))
                          (take (nat (count l)) (filter is_sync (mInputReader s))) \<and>
      numEventReceived (fst (event_loop cfg l s)) = numEventReceived l + int (length D)"
    proof (cases "ie_type e = EV_SYN")
      case True
      define p' where "p' = commit_pending cfg (mPendingEvent s) e"
      have b: "loop_body cfg e (l, s) =
          (l\<lparr>count := count l - 1, numEventReceived := numEventReceived l + 1,
             data := data l @ [p']\<rparr>,
           s\<lparr>mPendingEvent := p', mInputReader := q\<rparr>)"
        using en "2.hyps"(2) by (simp add: loop_body_sync [OF True] p'_def commit_pending_def)
      from "2.IH" en pos obtain D where D:
          "data (fst (event_loop cfg l s)) = (data l @ [p']) @ D"
          "map timestamp D = map (\<lambda>e. timevalToNano cfg (ie_time e))
                               (take (nat (count l - 1)) (filter is_sync q))"
          "numEventReceived (fst (event_loop cfg l s)) = numEventReceived l + 1 + int (length D)"
        unfolding unf b by auto
      have tk: "take (nat (count l)) (filter is_sync (mInputReader s))
                  = e # take (nat (count l - 1)) (filter is_sync q)"
        using "2.hyps"(2) True pos by (simp add: is_sync_def take_nat_pos)
      have "data (fst (event_loop cfg l s)) = data l @ (p' # D) \<and>
            map timestamp (p' # D) = map (\<lambda>e. timevalToNano cfg (ie_time e))
               (take (nat (count l)) (filter is_sync (mInputReader s))) \<and>
            numEventReceived (fst (event_loop cfg l s)) = numEventReceived l + int (length (p' # D))"
        using D tk by (simp add: p'_def commit_pending_def)
      then show ?thesis by blast
    next
      case nosync: False
      have f: "filter is_sync (mInputReader s) = filter is_sync q"
        using "2.hyps"(2) nosync by (simp add: is_sync_def)
      show ?thesis
      proof (cases "ie_type e = EV_REL")
        case True
        have "fst (loop_body cfg e (l, s)) = l"
            "mEnabled (snd (loop_body cfg e (l, s))) = mEnabled s"
            "mInputReader (snd (loop_body cfg e (l, s))) = q"
          using loop_body_rel [OF True, of cfg l s] "2.hyps"(2) by simp_all
        then show ?thesis using "2.IH" en c unfolding unf f by simp
      next
        case False
        have "loop_body cfg e (l, s) =
            (l, s\<lparr>alog := alog s @ [LogUnknownEvent (ie_type e) (ie_code e)],
                  mInputReader := q\<rparr>)"
          using "2.hyps"(2) by (simp add: loop_body_unknown [OF False nosync])
        then show ?thesis using "2.IH" en c unfolding unf f by simp
      qed
    qed
  qed
qed

text \<open>A disabled sensor: the loop writes nothing, and reads the reader to its end.\<close>

lemma event_loop_disabled:
  "mEnabled s = 0 \<longrightarrow>
   fst (event_loop cfg l s) = l \<and>
   (count l \<noteq> 0 \<longrightarrow> mInputReader (snd (event_loop cfg l s)) = [] \<and>
      alog (snd (event_loop cfg l s)) =
        alog s @ map (\<lambda>e. LogUnknownEvent (ie_type e) (ie_code e))
                   (filter (\<lambda>e. \<not> known_event e) (mInputReader s)))"
proof (induction l s rule: event_loop_cases_induct [where cfg = cfg])
  case (1 l s)
  then show ?case by (auto simp: event_loop_stop)
next
  case (2 l s e q)
  note unf = event_loop_unfold [OF "2.hyps"(1,2), of cfg]
  show ?case
  proof (intro impI)
    assume dis: "mEnabled s = 0"
    show "fst (event_loop cfg l s) = l \<and>
      (count l \<noteq> 0 \<longrightarrow> mInputReader (snd (event_loop cfg l s)) = [] \<and>
        alog (snd (event_loop cfg l s)) =
          alog s @ map (\<lambda>e. LogUnknownEvent (ie_type e) (ie_code e))
                     (filter (\<lambda>e. \<not> known_event e) (mInputReader s)))"
    proof (cases "ie_type e = EV_SYN")
      case True
      have b: "loop_body cfg e (l, s) =
          (l, s\<lparr>mPendingEvent := commit_pending cfg (mPendingEvent s) e, mInputReader := q\<rparr>)"
        using dis "2.hyps"(2) by (simp add: loop_body_sync [OF True] commit_pending_def)
      show ?thesis
        using "2.IH" dis "2.hyps" True unfolding unf b by (simp add: known_event_def)
    next
      case nosync: False
      show ?thesis
      proof (cases "ie_type e = EV_REL")
        case True
        have "fst (loop_body cfg e (l, s)) = l"
            "mEnabled (snd (loop_body cfg e (l, s))) = mEnabled s"
            "mInputReader (snd (loop_body cfg e (l, s))) = q"
            "alog (snd (loop_body cfg e (l, s))) = alog s"
          using loop_body_rel [OF True, of cfg l s] "2.hyps"(2) by simp_all
        then show ?thesis
          using "2.IH" dis "2.hyps" True unfolding unf by (simp add: known_event_def)
      next
        case False
        have "loop_body cfg e (l, s) =
            (l, s\<lparr>alog := alog s @ [LogUnknownEvent (ie_type e) (ie_code e)],
                  mInputReader := q\<rparr>)"
          using "2.hyps"(2) by (simp add: loop_body_unknown [OF False nosync])
        then show ?thesis
          using "2.IH" dis "2.hyps" False nosync unfolding unf by (simp add: known_event_def)
      qed
    qed
  qed
qed

text \<open>With no axis update among the events, the pending event changes in its timestamp
  only: what is written is the pending event of the start with each sync's time.\<close>

lemma event_loop_without_axis_updates:
  "0 \<le> count l \<longrightarrow> (\<forall>e \<in> set (mInputReader s). ie_type e \<noteq> EV_REL) \<longrightarrow>
   (mEnabled s \<noteq> 0 \<longrightarrow>
      data (fst (event_loop cfg l s)) =
        data l @ map (commit_pending cfg (mPendingEvent s))
                   (take (nat (count l)) (filter is_sync (mInputReader s))) \<and>
      mPendingEvent (snd (event_loop cfg l s)) =
        (if take (nat (count l)) (filter is_sync (mInputReader s)) = [] then mPendingEvent s
         else commit_pending cfg (mPendingEvent s)
                (last (take (nat (count l)) (filter is_sync (mInputReader s)))))) \<and>
   (mEnabled s = 0 \<longrightarrow>
      mPendingEvent (snd (event_loop cfg l s)) =
        (if count l = 0 \<or> filter is_sync (mInputReader s) = [] then mPendingEvent s
         else commit_pending cfg (mPendingEvent s) (last (filter is_sync (mInputReader s)))))"
proof (induction l s rule: event_loop_cases_induct [where cfg = cfg])
  case (1 l s)
  then show ?case by (auto simp: event_loop_stop)
next
  case (2 l s e q)
  note unf = event_loop_unfold [OF "2.hyps"(1,2), of cfg]
  show ?case
  proof (intro impI)
    assume c: "0 \<le> count l" and norel: "\<forall>e \<in> set (mInputReader s). ie_type e \<noteq> EV_REL"
    from c "2.hyps"(1) have pos: "0 < count l" by simp
    from norel "2.hyps"(2) have nr: "ie_type e \<noteq> EV_REL" "\<forall>e \<in> set q. ie_type e \<noteq> EV_REL"
      by simp_all
    show "(mEnabled s \<noteq> 0 \<longrightarrow>
      data (fst (event_loop cfg l s)) =
        data l @ map (commit_pending cfg (mPendingEvent s))
                   (take (nat (count l)) (filter is_sync (mInputReader s))) \<and>
      mPendingEvent (snd (event_loop cfg l s)) =
        (if take (nat (count l)) (filter is_sync (mInputReader s)) = [] then mPendingEvent s
         else commit_pending cfg (mPendingEvent s)
                (last (take (nat (count l)) (filter is_sync (mInputReader s)))))) \<and>
     (mEnabled s = 0 \<longrightarrow>
      mPendingEvent (snd (event_loop cfg l s)) =
        (if count l = 0 \<or> filter is_sync (mInputReader s) = [] then mPendingEvent s
         else commit_pending cfg (mPendingEvent s) (last (filter is_sync (mInputReader s)))))"
    proof (cases "ie_type e = EV_SYN")
      case True
      define p' where "p' = commit_pending cfg (mPendingEvent s) e"
      have tk: "take (nat (count l)) (filter is_sync (mInputReader s))
                  = e # take (nat (count l - 1)) (filter is_sync q)"
        using "2.hyps"(2) True pos by (simp add: is_sync_def take_nat_pos)
      have fl: "filter is_sync (mInputReader s) = e # filter is_sync q"
        using "2.hyps"(2) True by (simp add: is_sync_def)
      show ?thesis
      proof (cases "mEnabled s = 0")
        case dis: True
        have b: "loop_body cfg e (l, s) = (l, s\<lparr>mPendingEvent := p', mInputReader := q\<rparr>)"
          using dis "2.hyps"(2) by (simp add: loop_body_sync [OF True] p'_def commit_pending_def)
        show ?thesis
          using "2.IH" dis c nr(2) "2.hyps"(1) unfolding unf b fl
          by (simp add: p'_def commit_pending_twice)
      next
        case en: False
        have b: "loop_body cfg e (l, s) =
            (l\<lparr>count := count l - 1, numEventReceived := numEventReceived l + 1,
               data := data l @ [p']\<rparr>,
             s\<lparr>mPendingEvent := p', mInputReader := q\<rparr>)"
          using en "2.hyps"(2) by (simp add: loop_body_sync [OF True] p'_def commit_pending_def)
        show ?thesis
          using "2.IH" en pos nr(2) unfolding unf b tk
          by (simp add: p'_def commit_pending_twice)
      qed
    next
      case nosync: False
      have f: "filter is_sync (mInputReader s) = filter is_sync q"
        using "2.hyps"(2) nosync by (simp add: is_sync_def)
      have b: "loop_body cfg e (l, s) =
          (l, s\<lparr>alog := alog s @ [LogUnknownEvent (ie_type e) (ie_code e)],
                mInputReader := q\<rparr>)"
        using "2.hyps"(2) by (simp add: loop_body_unknown [OF nr(1) nosync])
      show ?thesis
        using "2.IH" c nr(2) "2.hyps"(1) unfolding unf b f by simp
    qed
  qed
qed


text \<open>When the capacity outlasts the sync events, or the sensor is disabled, the loop reads
  the reader to its end and logs each event that is neither an axis update nor a sync.\<close>

lemma event_loop_reads_all:
  "(mEnabled s = 0 \<and> count l \<noteq> 0) \<or> int (length (filter is_sync (mInputReader s))) < count l
   \<longrightarrow>
   mInputReader (snd (event_loop cfg l s)) = [] \<and>
   alog (snd (event_loop cfg l s)) =
     alog s @ map (\<lambda>e. LogUnknownEvent (ie_type e) (ie_code e))
                (filter (\<lambda>e. \<not> known_event e) (mInputReader s))"
proof (induction l s rule: event_loop_cases_induct [where cfg = cfg])
  case (1 l s)
  then show ?case by (auto simp: event_loop_stop)
next
  case (2 l s e q)
  note unf = event_loop_unfold [OF "2.hyps"(1,2), of cfg]
  show ?case
  proof (intro impI)
    assume h: "(mEnabled s = 0 \<and> count l \<noteq> 0) \<or>
               int (length (filter is_sync (mInputReader s))) < count l"
    show "mInputReader (snd (event_loop cfg l s)) = [] \<and>
      alog (snd (event_loop cfg l s)) =
        alog s @ map (\<lambda>e. LogUnknownEvent (ie_type e) (ie_code e))
                   (filter (\<lambda>e. \<not> known_event e) (mInputReader s))"
    proof (cases "ie_type e = EV_SYN")
      case True
      have kn: "known_event e" using True by (simp add: known_event_def)
      have fl: "filter is_sync (mInputReader s) = e # filter is_sync q"
        using "2.hyps"(2) True by (simp add: is_sync_def)
      show ?thesis
      proof (cases "mEnabled s = 0")
        case dis: True
        have b: "loop_body cfg e (l, s) =
            (l, s\<lparr>mPendingEvent := commit_pending cfg (mPendingEvent s) e, mInputReader := q\<rparr>)"
          using dis "2.hyps"(2) by (simp add: loop_body_sync [OF True] commit_pending_def)
        show ?thesis
          using "2.IH" dis "2.hyps" kn unfolding unf b by simp
      next
        case en: False
        have b: "loop_body cfg e (l, s) =
            (l\<lparr>count := count l - 1, numEventReceived := numEventReceived l + 1,
               data := data l @ [commit_pending cfg (mPendingEvent s) e]\<rparr>,
             s\<lparr>mPendingEvent := commit_pending cfg (mPendingEvent s) e, mInputReader := q\<rparr>)"
          using en "2.hyps"(2) by (simp add: loop_body_sync [OF True] commit_pending_def)
        from h en have "int (length (filter is_sync q)) < count l - 1"
          by (simp add: fl)
        then show ?thesis
          using "2.IH" "2.hyps"(2) kn unfolding unf b by simp
      qed
    next
      case nosync: False
      have f: "filter is_sync (mInputReader s) = filter is_sync q"
        using "2.hyps"(2) nosync by (simp add: is_sync_def)
      show ?thesis
      proof (cases "ie_type e = EV_REL")
        case True
        have kn: "known_event e" using True by (simp add: known_event_def)
        have "fst (loop_body cfg e (l, s)) = l"
            "mEnabled (snd (loop_body cfg e (l, s))) = mEnabled s"
            "mInputReader (snd (loop_body cfg e (l, s))) = q"
            "alog (snd (loop_body cfg e (l, s))) = alog s"
          using loop_body_rel [OF True, of cfg l s] "2.hyps"(2) by simp_all
        then show ?thesis
          using "2.IH" h "2.hyps"(2) kn unfolding unf f by simp
      next
        case False
        have kn: "\<not> known_event e" using False nosync by (simp add: known_event_def)
        have "loop_body cfg e (l, s) =
            (l, s\<lparr>alog := alog s @ [LogUnknownEvent (ie_type e) (ie_code e)],
                  mInputReader := q\<rparr>)"
          using "2.hyps"(2) by (simp add: loop_body_unknown [OF False nosync])
        then show ?thesis
          using "2.IH" h "2.hyps"(2) kn unfolding unf f by simp
      qed
    qed
  qed
qed

lemma readEvents_enters_loop:
  assumes "0 \<le> n" and "1 \<le> cnt"
  shows "GyroSensor_readEvents cfg (n, evs) cnt g =
     (numEventReceived (fst (event_loop cfg (loop_entry_locals cnt g) (loop_entry_sensor g evs))),
      data (fst (event_loop cfg (loop_entry_locals cnt g) (loop_entry_sensor g evs))),
      snd (event_loop cfg (loop_entry_locals cnt g) (loop_entry_sensor g evs)))"
  using assms
  by (cases "mFlushEnabled g = 0")
     (simp_all add: GyroSensor_readEvents_def loop_entry_locals_def loop_entry_sensor_def
        marker_part_def Let_def split_beta)

lemma loop_entry_facts:
  "mEnabled (loop_entry_sensor g evs) = mEnabled g"
  "mInputReader (loop_entry_sensor g evs) = evs"
  "mPendingEvent (loop_entry_sensor g evs) = mPendingEvent g"
  "alog (loop_entry_sensor g evs) = alog g"
  "data (loop_entry_locals cnt g) = marker_part g"
  "numEventReceived (loop_entry_locals cnt g) = int (length (marker_part g))"
  "count (loop_entry_locals cnt g) = cnt - int (length (marker_part g))"
  by (simp_all add: loop_entry_sensor_def loop_entry_locals_def)

lemma loop_entry_count: "1 \<le> cnt \<Longrightarrow> 0 \<le> count (loop_entry_locals cnt g)"
  by (simp add: loop_entry_locals_def marker_part_def)

lemma readEvents_reads_all:
  assumes "0 \<le> n" and "1 \<le> cnt"
    and "(mEnabled g = 0 \<and> capacity_left cnt g \<noteq> 0) \<or>
         length (filter is_sync evs) < capacity_left cnt g"
  shows "mInputReader (snd (snd (GyroSensor_readEvents cfg (n, evs) cnt g))) = [] \<and>
         alog (snd (snd (GyroSensor_readEvents cfg (n, evs) cnt g))) =
           alog g @ map (\<lambda>e. LogUnknownEvent (ie_type e) (ie_code e))
                      (filter (\<lambda>e. \<not> known_event e) evs)"
proof -
  have "(mEnabled (loop_entry_sensor g evs) = 0 \<and> count (loop_entry_locals cnt g) \<noteq> 0) \<or>
        int (length (filter is_sync (mInputReader (loop_entry_sensor g evs))))
          < count (loop_entry_locals cnt g)"
    using assms(3) by (auto simp: capacity_left_def loop_entry_facts)
  then show ?thesis
    using event_loop_reads_all [of "loop_entry_sensor g evs" "loop_entry_locals cnt g" cfg]
    by (simp add: readEvents_enters_loop [OF assms(1,2)] loop_entry_facts)
qed

lemma readEvents_enabled_syncs:
  assumes "0 \<le> n" and "1 \<le> cnt" and "mEnabled g \<noteq> 0"
  shows "take (length (marker_part g)) (fst (snd (GyroSensor_readEvents cfg (n, evs) cnt g)))
           = marker_part g \<and>
         map timestamp (drop (length (marker_part g))
                          (fst (snd (GyroSensor_readEvents cfg (n, evs) cnt g))))
           = map (\<lambda>e. timevalToNano cfg (ie_time e)) (syncs_read cnt g evs) \<and>
         fst (GyroSensor_readEvents cfg (n, evs) cnt g)
           = int (length (fst (snd (GyroSensor_readEvents cfg (n, evs) cnt g))))"
proof -
  from event_loop_enabled_timestamps [of "loop_entry_sensor g evs" "loop_entry_locals cnt g" cfg]
    assms(3) loop_entry_count [OF assms(2), of g]
  obtain D where D:
      "data (fst (event_loop cfg (loop_entry_locals cnt g) (loop_entry_sensor g evs)))
         = marker_part g @ D"
      "map timestamp D = map (\<lambda>e. timevalToNano cfg (ie_time e)) (syncs_read cnt g evs)"
      "numEventReceived (fst (event_loop cfg (loop_entry_locals cnt g) (loop_entry_sensor g evs)))
         = int (length (marker_part g)) + int (length D)"
    by (auto simp: loop_entry_facts syncs_read_def capacity_left_def)
  show ?thesis
    using D by (simp add: readEvents_enters_loop [OF assms(1,2)])
qed

lemma readEvents_disabled:
  assumes "0 \<le> n" and "1 \<le> cnt" and "mEnabled g = 0"
  shows "fst (snd (GyroSensor_readEvents cfg (n, evs) cnt g)) = marker_part g \<and>
         fst (GyroSensor_readEvents cfg (n, evs) cnt g) = int (length (marker_part g)) \<and>
         (capacity_left cnt g \<noteq> 0 \<longrightarrow>
            mInputReader (snd (snd (GyroSensor_readEvents cfg (n, evs) cnt g))) = [] \<and>
            alog (snd (snd (GyroSensor_readEvents cfg (n, evs) cnt g))) =
              alog g @ map (\<lambda>e. LogUnknownEvent (ie_type e) (ie_code e))
                         (filter (\<lambda>e. \<not> known_event e) evs))"
proof -
  have c: "capacity_left cnt g \<noteq> 0 \<Longrightarrow> count (loop_entry_locals cnt g) \<noteq> 0"
    by (auto simp: capacity_left_def loop_entry_facts)
  show ?thesis
    using event_loop_disabled [of "loop_entry_sensor g evs" cfg "loop_entry_locals cnt g"]
      assms(3) c
    by (simp add: readEvents_enters_loop [OF assms(1,2)] loop_entry_facts)
qed

lemma readEvents_without_axis_updates:
  assumes "0 \<le> n" and "1 \<le> cnt" and "\<forall>e \<in> set evs. ie_type e \<noteq> EV_REL"
  shows "(mEnabled g \<noteq> 0 \<longrightarrow>
            fst (snd (GyroSensor_readEvents cfg (n, evs) cnt g))
              = marker_part g @ map (commit_pending cfg (mPendingEvent g)) (syncs_read cnt g evs) \<and>
            mPendingEvent (snd (snd (GyroSensor_readEvents cfg (n, evs) cnt g)))
              = (if syncs_read cnt g evs = [] then mPendingEvent g
                 else commit_pending cfg (mPendingEvent g) (last (syncs_read cnt g evs)))) \<and>
         (mEnabled g = 0 \<longrightarrow>
            mPendingEvent (snd (snd (GyroSensor_readEvents cfg (n, evs) cnt g)))
              = (if capacity_left cnt g = 0 \<or> filter is_sync evs = [] then mPendingEvent g
                 else commit_pending cfg (mPendingEvent g) (last (filter is_sync evs))))"
proof -
  have z: "(count (loop_entry_locals cnt g) = 0) = (capacity_left cnt g = 0)"
    using assms(2) by (auto simp: capacity_left_def loop_entry_facts marker_part_def)
  show ?thesis
    using event_loop_without_axis_updates
        [of "loop_entry_locals cnt g" "loop_entry_sensor g evs" cfg]
      assms(3) loop_entry_count [OF assms(2), of g] z
    by (simp add: readEvents_enters_loop [OF assms(1,2)] loop_entry_facts syncs_read_def
        capacity_left_def)
qed


text \<open>
  Claim C9. For a call of \<^verbatim>\<open>readEvents\<close> whose fill succeeds (\<open>n \<ge> 0\<close>) and leaves the
  events \<open>evs\<close> in the reader, with a capacity of at least 1:
  \<^item> on an enabled sensor the call writes, after the flush marker if one is pending, one
    sample per sync event of \<open>evs\<close>, in order, until the capacity is used up; the
    timestamp of each sample is the time of its sync event, and the value returned is
    the number of events written;
  \<^item> on a disabled sensor the call writes no sample at all;
  \<^item> when the capacity outlasts the sync events, or the sensor is disabled, the call
    reads the reader to its end and logs every event that is neither an axis update nor
    a sync, in order, and nothing else;
  \<^item> when no axis update is among the events, the samples written are the pending
    event of the start with only the timestamp set (events of other types change
    nothing of it), and the pending event is left with the time of the last sync
    event the loop reached;
  \<^item> removing the events that are neither axis updates nor syncs from \<open>evs\<close> changes
    neither the value returned, nor the events written, nor the pending event: such an
    event does not end the batch.

  And for one run of the loop body, at an event \<open>e\<close> at the head of the reader with
  capacity left: a sync event sets the timestamp of the pending event from its own
  time, and the pending event is appended and counted if and only if the sensor is
  enabled; an event of another type than axis update and sync is logged and dropped
  from the reader, and locals and pending event are unchanged; the loop goes on with
  what the body leaves.
\<close>

theorem sync_commits_unknown_is_dropped:
  "(0 \<le> n \<and> 1 \<le> cnt \<longrightarrow>
      (mEnabled g \<noteq> 0 \<longrightarrow>
         take (length (marker_part g)) (fst (snd (GyroSensor_readEvents cfg (n, evs) cnt g)))
           = marker_part g \<and>
         map timestamp (drop (length (marker_part g))
                          (fst (snd (GyroSensor_readEvents cfg (n, evs) cnt g))))
           = map (\<lambda>e. timevalToNano cfg (ie_time e)) (syncs_read cnt g evs) \<and>
         fst (GyroSensor_readEvents cfg (n, evs) cnt g)
           = int (length (fst (snd (GyroSensor_readEvents cfg (n, evs) cnt g))))) \<and>
      (mEnabled g = 0 \<longrightarrow>
         fst (snd (GyroSensor_readEvents cfg (n, evs) cnt g)) = marker_part g \<and>
         fst (GyroSensor_readEvents cfg (n, evs) cnt g) = int (length (marker_part g))) \<and>
      ((mEnabled g = 0 \<and> capacity_left cnt g \<noteq> 0) \<or>
       length (filter is_sync evs) < capacity_left cnt g \<longrightarrow>
         mInputReader (snd (snd (GyroSensor_readEvents cfg (n, evs) cnt g))) = [] \<and>
         alog (snd (snd (GyroSensor_readEvents cfg (n, evs) cnt g))) =
           alog g @ map (\<lambda>e. LogUnknownEvent (ie_type e) (ie_code e))
                      (filter (\<lambda>e. \<not> known_event e) evs)) \<and>
      ((\<forall>e \<in> set evs. ie_type e \<noteq> EV_REL) \<longrightarrow>
         (mEnabled g \<noteq> 0 \<longrightarrow>
            fst (snd (GyroSensor_readEvents cfg (n, evs) cnt g))
              = marker_part g @ map (commit_pending cfg (mPendingEvent g)) (syncs_read cnt g evs) \<and>
            mPendingEvent (snd (snd (GyroSensor_readEvents cfg (n, evs) cnt g)))
              = (if syncs_read cnt g evs = [] then mPendingEvent g
                 else commit_pending cfg (mPendingEvent g) (last (syncs_read cnt g evs)))) \<and>
         (mEnabled g = 0 \<longrightarrow>
            mPendingEvent (snd (snd (GyroSensor_readEvents cfg (n, evs) cnt g)))
              = (if capacity_left cnt g = 0 \<or> filter is_sync evs = [] then mPendingEvent g
                 else commit_pending cfg (mPendingEvent g) (last (filter is_sync evs)))))) \<and>
   fst (GyroSensor_readEvents cfg (n, evs) cnt g)
     = fst (GyroSensor_readEvents cfg (n, filter known_event evs) cnt g) \<and>
   fst (snd (GyroSensor_readEvents cfg (n, evs) cnt g))
     = fst (snd (GyroSensor_readEvents cfg (n, filter known_event evs) cnt g)) \<and>
   mPendingEvent (snd (snd (GyroSensor_readEvents cfg (n, evs) cnt g)))
     = mPendingEvent (snd (snd (GyroSensor_readEvents cfg (n, filter known_event evs) cnt g))) \<and>
   (count l \<noteq> 0 \<and> mInputReader s = e # q \<longrightarrow>
      (ie_type e = EV_SYN \<longrightarrow>
         mPendingEvent (snd (loop_body cfg e (l, s)))
           = (mPendingEvent s)\<lparr>timestamp := timevalToNano cfg (ie_time e)\<rparr> \<and>
         data (fst (loop_body cfg e (l, s)))
           = (if mEnabled s \<noteq> 0
              then data l @ [(mPendingEvent s)\<lparr>timestamp := timevalToNano cfg (ie_time e)\<rparr>]
              else data l) \<and>
         numEventReceived (fst (loop_body cfg e (l, s)))
           = (if mEnabled s \<noteq> 0 then numEventReceived l + 1 else numEventReceived l)) \<and>
      (ie_type e \<noteq> EV_REL \<and> ie_type e \<noteq> EV_SYN \<longrightarrow>
         loop_body cfg e (l, s)
           = (l, s\<lparr>alog := alog s @ [LogUnknownEvent (ie_type e) (ie_code e)],
                   mInputReader := q\<rparr>)) \<and>
      event_loop cfg l s
        = event_loop cfg (fst (loop_body cfg e (l, s))) (snd (loop_body cfg e (l, s))))"
proof -
  have batch: "0 \<le> n \<and> 1 \<le> cnt \<longrightarrow>
      (mEnabled g \<noteq> 0 \<longrightarrow>
         take (length (marker_part g)) (fst (snd (GyroSensor_readEvents cfg (n, evs) cnt g)))
           = marker_part g \<and>
         map timestamp (drop (length (marker_part g))
                          (fst (snd (GyroSensor_readEvents cfg (n, evs) cnt g))))
           = map (\<lambda>e. timevalToNano cfg (ie_time e)) (syncs_read cnt g evs) \<and>
         fst (GyroSensor_readEvents cfg (n, evs) cnt g)
           = int (length (fst (snd (GyroSensor_readEvents cfg (n, evs) cnt g))))) \<and>
      (mEnabled g = 0 \<longrightarrow>
         fst (snd (GyroSensor_readEvents cfg (n, evs) cnt g)) = marker_part g \<and>
         fst (GyroSensor_readEvents cfg (n, evs) cnt g) = int (length (marker_part g))) \<and>
      ((mEnabled g = 0 \<and> capacity_left cnt g \<noteq> 0) \<or>
       length (filter is_sync evs) < capacity_left cnt g \<longrightarrow>
         mInputReader (snd (snd (GyroSensor_readEvents cfg (n, evs) cnt g))) = [] \<and>
         alog (snd (snd (GyroSensor_readEvents cfg (n, evs) cnt g))) =
           alog g @ map (\<lambda>e. LogUnknownEvent (ie_type e) (ie_code e))
                      (filter (\<lambda>e. \<not> known_event e) evs)) \<and>
      ((\<forall>e \<in> set evs. ie_type e \<noteq> EV_REL) \<longrightarrow>
         (mEnabled g \<noteq> 0 \<longrightarrow>
            fst (snd (GyroSensor_readEvents cfg (n, evs) cnt g))
              = marker_part g @ map (commit_pending cfg (mPendingEvent g)) (syncs_read cnt g evs) \<and>
            mPendingEvent (snd (snd (GyroSensor_readEvents cfg (n, evs) cnt g)))
              = (if syncs_read cnt g evs = [] then mPendingEvent g
                 else commit_pending cfg (mPendingEvent g) (last (syncs_read cnt g evs)))) \<and>
         (mEnabled g = 0 \<longrightarrow>
            mPendingEvent (snd (snd (GyroSensor_readEvents cfg (n, evs) cnt g)))
              = (if capacity_left cnt g = 0 \<or> filter is_sync evs = [] then mPendingEvent g
                 else commit_pending cfg (mPendingEvent g) (last (filter is_sync evs)))))"
  proof (intro impI)
    assume a: "0 \<le> n \<and> 1 \<le> cnt"
    then have n: "0 \<le> n" and c: "1 \<le> cnt" by simp_all
    show "(mEnabled g \<noteq> 0 \<longrightarrow>
         take (length (marker_part g)) (fst (snd (GyroSensor_readEvents cfg (n, evs) cnt g)))
           = marker_part g \<and>
         map timestamp (drop (length (marker_part g))
                          (fst (snd (GyroSensor_readEvents cfg (n, evs) cnt g))))
           = map (\<lambda>e. timevalToNano cfg (ie_time e)) (syncs_read cnt g evs) \<and>
         fst (GyroSensor_readEvents cfg (n, evs) cnt g)
           = int (length (fst (snd (GyroSensor_readEvents cfg (n, evs) cnt g))))) \<and>
      (mEnabled g = 0 \<longrightarrow>
         fst (snd (GyroSensor_readEvents cfg (n, evs) cnt g)) = marker_part g \<and>
         fst (GyroSensor_readEvents cfg (n, evs) cnt g) = int (length (marker_part g))) \<and>
      ((mEnabled g = 0 \<and> capacity_left cnt g \<noteq> 0) \<or>
       length (filter is_sync evs) < capacity_left cnt g \<longrightarrow>
         mInputReader (snd (snd (GyroSensor_readEvents cfg (n, evs) cnt g))) = [] \<and>
         alog (snd (snd (GyroSensor_readEvents cfg (n, evs) cnt g))) =
           alog g @ map (\<lambda>e. LogUnknownEvent (ie_type e) (ie_code e))
                      (filter (\<lambda>e. \<not> known_event e) evs)) \<and>
      ((\<forall>e \<in> set evs. ie_type e \<noteq> EV_REL) \<longrightarrow>
         (mEnabled g \<noteq> 0 \<longrightarrow>
            fst (snd (GyroSensor_readEvents cfg (n, evs) cnt g))
              = marker_part g @ map (commit_pending cfg (mPendingEvent g)) (syncs_read cnt g evs) \<and>
            mPendingEvent (snd (snd (GyroSensor_readEvents cfg (n, evs) cnt g)))
              = (if syncs_read cnt g evs = [] then mPendingEvent g
                 else commit_pending cfg (mPendingEvent g) (last (syncs_read cnt g evs)))) \<and>
         (mEnabled g = 0 \<longrightarrow>
            mPendingEvent (snd (snd (GyroSensor_readEvents cfg (n, evs) cnt g)))
              = (if capacity_left cnt g = 0 \<or> filter is_sync evs = [] then mPendingEvent g
                 else commit_pending cfg (mPendingEvent g) (last (filter is_sync evs)))))"
      using readEvents_enabled_syncs [OF n c, of g cfg evs]
        readEvents_disabled [OF n c, of g cfg evs]
        readEvents_reads_all [OF n c, of g evs cfg]
        readEvents_without_axis_updates [OF n c, of evs g cfg]
      by blast
  qed
  have step: "count l \<noteq> 0 \<and> mInputReader s = e # q \<longrightarrow> event_loop cfg l s
       = event_loop cfg (fst (loop_body cfg e (l, s))) (snd (loop_body cfg e (l, s)))"
    using event_loop_unfold [of l s e q cfg] by simp
  have sync: "ie_type e = EV_SYN \<longrightarrow>
        mPendingEvent (snd (loop_body cfg e (l, s)))
          = (mPendingEvent s)\<lparr>timestamp := timevalToNano cfg (ie_time e)\<rparr> \<and>
        data (fst (loop_body cfg e (l, s)))
          = (if mEnabled s \<noteq> 0
             then data l @ [(mPendingEvent s)\<lparr>timestamp := timevalToNano cfg (ie_time e)\<rparr>]
             else data l) \<and>
        numEventReceived (fst (loop_body cfg e (l, s)))
          = (if mEnabled s \<noteq> 0 then numEventReceived l + 1 else numEventReceived l)"
    by (simp add: loop_body_sync)
  have unk: "mInputReader s = e # q \<longrightarrow> ie_type e \<noteq> EV_REL \<and> ie_type e \<noteq> EV_SYN \<longrightarrow>
        loop_body cfg e (l, s)
          = (l, s\<lparr>alog := alog s @ [LogUnknownEvent (ie_type e) (ie_code e)],
                  mInputReader := q\<rparr>)"
    by (simp add: loop_body_unknown)
  show ?thesis
    using batch step sync unk readEvents_ignores_unknown [of cfg n evs cnt g] by blast
qed


theorem sync_commits_unknown_is_dropped_witness:
  "(0 :: int) \<le> 2 \<and> (1 :: int) \<le> 4 \<and>
   mEnabled gyro_enabled \<noteq> 0 \<and> mEnabled gyro_disabled = 0 \<and>
   ie_type key_event \<noteq> EV_REL \<and> ie_type key_event \<noteq> EV_SYN \<and>
   ie_type sync_event = EV_SYN \<and>
   fst (snd (GyroSensor_readEvents example_cfg (2, [key_event, sync_event]) 4 gyro_enabled))
     = [(initial_pending_event example_cfg)\<lparr>timestamp := 1000002000\<rparr>] \<and>
   fst (GyroSensor_readEvents example_cfg (2, [key_event, sync_event]) 4 gyro_enabled) = 1 \<and>
   mPendingEvent (snd (snd (GyroSensor_readEvents example_cfg (2, [key_event, sync_event]) 4
                             gyro_enabled)))
     = (initial_pending_event example_cfg)\<lparr>timestamp := 1000002000\<rparr> \<and>
   alog (snd (snd (GyroSensor_readEvents example_cfg (2, [key_event, sync_event]) 4
                    gyro_enabled)))
     = [LogUnknownEvent 1 30] \<and>
   fst (snd (GyroSensor_readEvents example_cfg (2, [key_event, sync_event]) 4 gyro_disabled))
     = [] \<and>
   fst (GyroSensor_readEvents example_cfg (2, [key_event, sync_event]) 4 gyro_disabled) = 0 \<and>
   alog (snd (snd (GyroSensor_readEvents example_cfg (2, [key_event, sync_event]) 4
                    gyro_disabled)))
     = [LogUnknownEvent 1 30] \<and>
   mPendingEvent (snd (snd (GyroSensor_readEvents example_cfg (2, [key_event, sync_event]) 4
                             gyro_disabled)))
     = (initial_pending_event example_cfg)\<lparr>timestamp := 1000002000\<rparr> \<and>
   count four_left \<noteq> 0 \<and>
   mInputReader gyro_sync_queued = sync_event # [key_event] \<and>
   mPendingEvent (snd (loop_body example_cfg sync_event (four_left, gyro_sync_queued)))
     = (initial_pending_event example_cfg)\<lparr>timestamp := 1000002000\<rparr> \<and>
   data (fst (loop_body example_cfg sync_event (four_left, gyro_sync_queued)))
     = [(initial_pending_event example_cfg)\<lparr>timestamp := 1000002000\<rparr>] \<and>
   mInputReader gyro_key_queued = key_event # [] \<and>
   loop_body example_cfg key_event (four_left, gyro_key_queued)
     = (four_left, gyro_key_queued\<lparr>alog := [LogUnknownEvent 1 30], mInputReader := []\<rparr>)"
proof -
  have c: "count four_left \<noteq> 0" by (simp add: four_left_def)
  have q1: "mInputReader gyro_sync_queued = sync_event # [key_event]"
    by (simp add: gyro_sync_queued_def)
  have q2: "mInputReader gyro_key_queued = key_event # []"
    by (simp add: gyro_key_queued_def)
  have t1: "ie_type sync_event = EV_SYN" by (simp add: sync_event_def EV_SYN_def)
  have t2: "ie_type key_event \<noteq> EV_REL" "ie_type key_event \<noteq> EV_SYN"
      "ie_type sync_event \<noteq> EV_REL"
    by (simp_all add: key_event_def sync_event_def EV_SYN_def EV_REL_def)
  have en: "mEnabled gyro_enabled \<noteq> 0" "mEnabled gyro_disabled = 0"
    by (simp_all add: gyro_enabled_eq gyro_disabled_eq)
  have norel: "\<forall>e \<in> set [key_event, sync_event]. ie_type e \<noteq> EV_REL"
    using t2 by simp
  have m: "marker_part gyro_enabled = []" "marker_part gyro_disabled = []"
    by (simp_all add: marker_part_def gyro_enabled_eq gyro_disabled_eq)
  have cap: "capacity_left 4 gyro_enabled = 4" "capacity_left 4 gyro_disabled = 4"
    by (simp_all add: capacity_left_def m)
  have is1: "is_sync sync_event" "\<not> is_sync key_event"
    using t1 t2 by (simp_all add: is_sync_def)
  have kn: "known_event sync_event" "\<not> known_event key_event"
    using t1 t2 by (simp_all add: known_event_def)
  have fs: "filter is_sync [key_event, sync_event] = [sync_event]"
    by (simp add: is1)
  have fu: "filter (\<lambda>e. \<not> known_event e) [key_event, sync_event] = [key_event]"
    by (simp add: kn)
  have sr: "syncs_read 4 gyro_enabled [key_event, sync_event] = [sync_event]"
    by (simp add: syncs_read_def cap is1)
  have p: "mPendingEvent gyro_enabled = initial_pending_event example_cfg"
      "mPendingEvent gyro_disabled = initial_pending_event example_cfg"
      "alog gyro_disabled = []" "alog gyro_enabled = []"
    by (simp_all add: gyro_enabled_eq gyro_disabled_eq)
  have cm: "commit_pending example_cfg (initial_pending_event example_cfg) sync_event
              = (initial_pending_event example_cfg)\<lparr>timestamp := 1000002000\<rparr>"
    by (simp add: commit_pending_def example_cfg_def sync_event_def)
  have lg: "LogUnknownEvent (ie_type key_event) (ie_code key_event) = LogUnknownEvent 1 30"
    by (simp add: key_event_def)
  note a = sync_commits_unknown_is_dropped [where cfg = example_cfg and n = 2 and cnt = 4
      and evs = "[key_event, sync_event]" and g = gyro_enabled
      and l = four_left and s = gyro_sync_queued and e = sync_event and q = "[key_event]"]
  note b = sync_commits_unknown_is_dropped [where cfg = example_cfg and n = 2 and cnt = 4
      and evs = "[key_event, sync_event]" and g = gyro_disabled
      and l = four_left and s = gyro_key_queued and e = key_event and q = "[]"]
  have e1: "fst (snd (GyroSensor_readEvents example_cfg (2, [key_event, sync_event]) 4 gyro_enabled))
     = [(initial_pending_event example_cfg)\<lparr>timestamp := 1000002000\<rparr>]"
    using a en(1) norel by (simp add: m sr p cm)
  have e2: "fst (GyroSensor_readEvents example_cfg (2, [key_event, sync_event]) 4 gyro_enabled) = 1"
    using a en(1) e1 by simp
  have e3: "mPendingEvent (snd (snd (GyroSensor_readEvents example_cfg (2, [key_event, sync_event]) 4
                             gyro_enabled)))
     = (initial_pending_event example_cfg)\<lparr>timestamp := 1000002000\<rparr>"
    using a en(1) norel by (simp add: m sr p cm)
  have e4: "alog (snd (snd (GyroSensor_readEvents example_cfg (2, [key_event, sync_event]) 4
                    gyro_enabled)))
     = [LogUnknownEvent 1 30]"
    using a by (simp add: m cap is1 kn p lg)
  have d1: "fst (snd (GyroSensor_readEvents example_cfg (2, [key_event, sync_event]) 4 gyro_disabled))
     = []"
    using b en(2) by (simp add: m)
  have d2: "fst (GyroSensor_readEvents example_cfg (2, [key_event, sync_event]) 4 gyro_disabled) = 0"
    using b en(2) by (simp add: m)
  have d3: "alog (snd (snd (GyroSensor_readEvents example_cfg (2, [key_event, sync_event]) 4
                    gyro_disabled)))
     = [LogUnknownEvent 1 30]"
    using b en(2) by (simp add: m cap kn p lg)
  have d4: "mPendingEvent (snd (snd (GyroSensor_readEvents example_cfg (2, [key_event, sync_event]) 4
                             gyro_disabled)))
     = (initial_pending_event example_cfg)\<lparr>timestamp := 1000002000\<rparr>"
    using b en(2) norel by (simp add: m cap is1 p cm)
  have s1: "mPendingEvent (snd (loop_body example_cfg sync_event (four_left, gyro_sync_queued)))
     = (initial_pending_event example_cfg)\<lparr>timestamp := 1000002000\<rparr>"
    using a c q1 t1 by (simp add: gyro_sync_queued_def p example_cfg_def sync_event_def)
  have s2: "data (fst (loop_body example_cfg sync_event (four_left, gyro_sync_queued)))
     = [(initial_pending_event example_cfg)\<lparr>timestamp := 1000002000\<rparr>]"
    using a c q1 t1 en(1)
    by (simp add: gyro_sync_queued_def p example_cfg_def sync_event_def four_left_def)
  have u: "loop_body example_cfg key_event (four_left, gyro_key_queued)
     = (four_left, gyro_key_queued\<lparr>alog := [LogUnknownEvent 1 30], mInputReader := []\<rparr>)"
    using b c q2 t2 by (simp add: gyro_key_queued_def gyro_enabled_eq lg)
  show ?thesis
    using c q1 q2 t1 t2 en e1 e2 e3 e4 d1 d2 d3 d4 s1 s2 u by simp
qed

section \<open>Properties of the IIO sensor\<close>

lemma iio_enabled_eq:
  "iio_enabled =
     \<lparr>sensor_handle = 10, sensor_type = 65536, sensor_flags = 0, remaining_samples = 0,
      iio_buf = Some 1, iio_ops = [ChannelsEnable, CreateBuffer 1, SetBlockingMode 1 False]\<rparr>"
  by (simp add: iio_enabled_def iio_fresh_def IioSensor_setEnable_def IioSensor_init_def
      hasSensor_def)

subsection \<open>Flush\<close>

text \<open>
  Claim C5. On a sensor whose reporting-mode bits are those of one-shot mode,
  \<^verbatim>\<open>flush\<close> with the sensor's own handle returns \<open>-EINVAL\<close> and leaves the sensor as it
  was: the trace of device operations is unchanged, so no attribute was written, and
  no other member changed either.
\<close>

theorem flush_one_shot_is_invalid:
  "hasSensor s handle \<Longrightarrow>
   sensor_flags s AND REPORTING_MODE_MASK = SENSOR_FLAG_ONE_SHOT_MODE \<Longrightarrow>
   IioSensor_flush res handle s = (- EINVAL, s) \<and>
   iio_ops (snd (IioSensor_flush res handle s)) = iio_ops s"
  by (simp add: IioSensor_flush_def)

theorem flush_one_shot_is_invalid_witness:
  "hasSensor iio_one_shot 10 \<and>
   sensor_flags iio_one_shot AND REPORTING_MODE_MASK = SENSOR_FLAG_ONE_SHOT_MODE \<and>
   IioSensor_flush 0 10 iio_one_shot = (-22, iio_one_shot) \<and>
   iio_ops (snd (IioSensor_flush 0 10 iio_one_shot)) = []"
proof -
  have h: "hasSensor iio_one_shot 10"
    by (simp add: hasSensor_def iio_one_shot_def IioSensor_init_def)
  have m: "sensor_flags iio_one_shot AND REPORTING_MODE_MASK = SENSOR_FLAG_ONE_SHOT_MODE"
    by (simp add: iio_one_shot_def IioSensor_init_def REPORTING_MODE_MASK_def
        SENSOR_FLAG_ONE_SHOT_MODE_def)
  show ?thesis
    using h m flush_one_shot_is_invalid [OF h m, of 0]
    by (simp add: EINVAL_def iio_one_shot_def IioSensor_init_def)
qed

subsection \<open>Reading events\<close>

lemma copy_loop_step:
  "copied < remaining_samples s \<Longrightarrow> copied < cnt \<Longrightarrow>
   copy_loop s sample_size cnt copied start out =
     copy_loop s sample_size cnt (copied + 1) (start + sample_size) (out @ [decode_record s start])"
  by (subst copy_loop.simps) simp

lemma copy_loop_stop:
  "\<not> (copied < remaining_samples s \<and> copied < cnt) \<Longrightarrow>
   copy_loop s sample_size cnt copied start out = (copied, out)"
  by (subst copy_loop.simps) auto

lemma copy_loop_copied:
  "fst (copy_loop s sample_size cnt copied start out)
     = max copied (min (remaining_samples s) cnt)"
proof (induction s sample_size cnt copied start out rule: copy_loop.induct)
  case (1 s sample_size cnt copied start out)
  show ?case
  proof (cases "copied < remaining_samples s \<and> copied < cnt")
    case True
    then show ?thesis using "1.IH" by (simp add: copy_loop_step)
  next
    case False
    then show ?thesis by (auto simp: copy_loop_stop)
  qed
qed

lemma copy_loop_length:
  "int (length (snd (copy_loop s sample_size cnt copied start out)))
     = int (length out) + (fst (copy_loop s sample_size cnt copied start out) - copied)"
proof (induction s sample_size cnt copied start out rule: copy_loop.induct)
  case (1 s sample_size cnt copied start out)
  show ?case
  proof (cases "copied < remaining_samples s \<and> copied < cnt")
    case True
    then show ?thesis using "1.IH" by (simp add: copy_loop_step)
  next
    case False
    then show ?thesis by (auto simp: copy_loop_stop)
  qed
qed

lemma copy_out_fst: "fst (copy_out s sample_size cnt start) = max 0 (min (remaining_samples s) cnt)"
  by (simp add: copy_out_def Let_def copy_loop_copied)

lemma iio_readEvents_first:
  "IioSensor_readEvents 8 24 2 iio_enabled =
     Some (2, [decode_record iio_enabled 0, decode_record iio_enabled 8], iio_part_read)"
  by (simp add: iio_enabled_eq iio_part_read_def IioSensor_readEvents_def copy_out_def c_div_def
      copy_loop_step copy_loop_stop decode_record_def)

text \<open>
  With records carried over, and a capacity, the call returns without a refill, and
  the first event it writes is decoded at \<^verbatim>\<open>remaining_samples * sample_size\<close>.
\<close>

lemma carry_over_cursor:
  assumes "iio_buf s = Some b" "0 < remaining_samples s" "0 < cnt"
  shows "\<exists>r evs s'. IioSensor_readEvents sample_size buffer_bytes cnt s = Some (r, evs, s') \<and>
           evs \<noteq> [] \<and> record_at (hd evs) = remaining_samples s * sample_size \<and>
           iio_ops s' = iio_ops s"
proof -
  have one: "copy_loop s sample_size cnt 0 (remaining_samples s * sample_size) [] =
      copy_loop s sample_size cnt 1 (remaining_samples s * sample_size + sample_size)
        [decode_record s (remaining_samples s * sample_size)]"
    using assms by (simp add: copy_loop_step)
  have pre: "\<And>copied start out. out \<noteq> [] \<Longrightarrow>
      snd (copy_loop s sample_size cnt copied start out) \<noteq> [] \<and>
      hd (snd (copy_loop s sample_size cnt copied start out)) = hd out"
  proof -
    fix copied start and out :: "iio_event list"
    assume "out \<noteq> []"
    then show "snd (copy_loop s sample_size cnt copied start out) \<noteq> [] \<and>
      hd (snd (copy_loop s sample_size cnt copied start out)) = hd out"
    proof (induction s sample_size cnt copied start out rule: copy_loop.induct)
      case (1 s sample_size cnt copied start out)
      show ?case
      proof (cases "copied < remaining_samples s \<and> copied < cnt")
        case True
        then show ?thesis using "1.IH" "1.prems" by (simp add: copy_loop_step)
      next
        case False
        then show ?thesis using "1.prems" by (auto simp: copy_loop_stop)
      qed
    qed
  qed
  show ?thesis
    using assms pre [of "[decode_record s (remaining_samples s * sample_size)]" 1
        "remaining_samples s * sample_size + sample_size"]
    by (simp add: IioSensor_readEvents_def copy_out_def Let_def one decode_record_def)
qed

text \<open>
  Claim C1. A refill fetches three records of 8 bytes (offsets 0, 8 and 16) and a
  \<^verbatim>\<open>readEvents\<close> with capacity 2 delivers the records at 0 and 8, leaving
  \<^verbatim>\<open>remaining_samples\<close> at 1. The next \<^verbatim>\<open>readEvents\<close> starts its cursor at
  \<^verbatim>\<open>remaining_samples * sample_size\<close>, offset 8: it delivers the record at 8 a second
  time, and the record at 16 is never delivered.
\<close>

theorem readEvents_carry_over_redelivers:
  "IioSensor_readEvents 8 24 2 iio_enabled =
     Some (2, [decode_record iio_enabled 0, decode_record iio_enabled 8], iio_part_read) \<and>
   IioSensor_readEvents 8 24 5 iio_part_read =
     Some (1, [decode_record iio_enabled 8], iio_part_read\<lparr>remaining_samples := 0\<rparr>)"
  by (simp add: iio_enabled_eq iio_part_read_def IioSensor_readEvents_def copy_out_def c_div_def
      copy_loop_step copy_loop_stop decode_record_def)

lemma setEnable_remaining_samples:
  "remaining_samples (snd (IioSensor_setEnable created errno handle enabled s))
     = remaining_samples s"
  by (simp add: IioSensor_setEnable_def Let_def split: option.splits)

text \<open>
  Claim C7. The sensor of the run above, with one record carried over, is disabled
  (buffer 1 is destroyed) and enabled again (buffer 2 is created). The new session
  starts with \<^verbatim>\<open>remaining_samples\<close> at 1, not 0, and the first \<^verbatim>\<open>readEvents\<close> after
  the enable delivers an event from offset 8 of the new buffer without a refill: the
  trace of the sensor it leaves holds no refill of buffer 2.
\<close>

theorem reenable_keeps_remaining_samples:
  "iio_buf iio_reenabled = Some 2 \<and> remaining_samples iio_reenabled = 1 \<and>
   IioSensor_readEvents 8 24 5 iio_reenabled =
     Some (1, [decode_record iio_reenabled 8], iio_reenabled\<lparr>remaining_samples := 0\<rparr>) \<and>
   iio_ops iio_reenabled =
     [ChannelsEnable, CreateBuffer 1, SetBlockingMode 1 False, Refill 1,
      ChannelsDisable, DestroyBuffer 1, ChannelsEnable, CreateBuffer 2, SetBlockingMode 2 False]"
  by (simp add: iio_reenabled_def iio_enabled_eq iio_part_read_def IioSensor_readEvents_def
      IioSensor_setEnable_def hasSensor_def copy_out_def c_div_def
      copy_loop_step copy_loop_stop decode_record_def)

text \<open>
  Claim C3, as stated, fails for the IIO sensor: with a capacity of 0 its
  \<^verbatim>\<open>readEvents\<close> refills the buffer and returns 0, which is not \<open>-EINVAL\<close>.
\<close>

theorem iio_readEvents_zero_capacity:
  "IioSensor_readEvents 8 24 0 iio_enabled =
     Some (0, [], iio_enabled\<lparr>remaining_samples := 3,
       iio_ops := [ChannelsEnable, CreateBuffer 1, SetBlockingMode 1 False, Refill 1]\<rparr>) \<and>
   (0 :: int) \<noteq> - EINVAL"
  by (simp add: iio_enabled_eq IioSensor_readEvents_def copy_out_def c_div_def
      copy_loop_step copy_loop_stop decode_record_def EINVAL_def)

text \<open>
  Claim C3, amended. \<^verbatim>\<open>GyroSensor::readEvents\<close> returns \<open>-EINVAL\<close> for every
  capacity below 1, and for a capacity \<open>C\<close> of at least 1 a negative value or a count
  from 0 to \<open>C\<close>. \<^verbatim>\<open>IioSensor::readEvents\<close>, on a sensor that has a buffer and a
  device whose sample size is not 0, always returns; it does not check the capacity:
  for a capacity below 1 it returns 0, or the negative result of a failed refill, and
  for a capacity \<open>C\<close> of at least 1 a negative value or a count from 0 to \<open>C\<close>.
\<close>

theorem readEvents_return_range:
  "(cnt < 1 \<longrightarrow> fst (GyroSensor_readEvents cfg filled cnt g) = - EINVAL) \<and>
   (1 \<le> cnt \<longrightarrow>
      (let r = fst (GyroSensor_readEvents cfg filled cnt g) in r < 0 \<or> (0 \<le> r \<and> r \<le> cnt))) \<and>
   (iio_buf s \<noteq> None \<and> sample_size \<noteq> 0 \<longrightarrow>
      (\<exists>r evs s'. IioSensor_readEvents sample_size buffer_bytes cnt s = Some (r, evs, s') \<and>
         (cnt < 1 \<longrightarrow> r = 0 \<or> (r = buffer_bytes \<and> buffer_bytes < 0)) \<and>
         (1 \<le> cnt \<longrightarrow> r < 0 \<or> (0 \<le> r \<and> r \<le> cnt))))"
proof (intro conjI impI)
  assume "cnt < 1"
  then show "fst (GyroSensor_readEvents cfg filled cnt g) = - EINVAL"
    by (simp add: readEvents_below_one)
next
  assume c: "1 \<le> cnt"
  define r where "r = fst (GyroSensor_readEvents cfg filled cnt g)"
  define d where "d = fst (snd (GyroSensor_readEvents cfg filled cnt g))"
  from readEvents_shape [OF c, of cfg filled g]
  have sh: "if fst filled < 0 then r = fst filled else r = int (length d) \<and> r \<le> cnt"
    unfolding r_def d_def by (cases "fst filled < 0") auto
  have "r < 0 \<or> (0 \<le> r \<and> r \<le> cnt)"
    using sh by (cases "fst filled < 0") auto
  then show "let r = fst (GyroSensor_readEvents cfg filled cnt g) in r < 0 \<or> (0 \<le> r \<and> r \<le> cnt)"
    by (simp add: r_def Let_def)
next
  assume a: "iio_buf s \<noteq> None \<and> sample_size \<noteq> 0"
  then obtain b where b: "iio_buf s = Some b" by auto
  show "\<exists>r evs s'. IioSensor_readEvents sample_size buffer_bytes cnt s = Some (r, evs, s') \<and>
         (cnt < 1 \<longrightarrow> r = 0 \<or> (r = buffer_bytes \<and> buffer_bytes < 0)) \<and>
         (1 \<le> cnt \<longrightarrow> r < 0 \<or> (0 \<le> r \<and> r \<le> cnt))"
  proof (cases "remaining_samples s = 0")
    case False
    define res where "res = copy_out s sample_size cnt (remaining_samples s * sample_size)"
    have e: "IioSensor_readEvents sample_size buffer_bytes cnt s
               = Some (fst res, fst (snd res), snd (snd res))"
      using False b by (simp add: IioSensor_readEvents_def res_def)
    have f: "fst res = max 0 (min (remaining_samples s) cnt)"
      by (simp add: res_def copy_out_fst)
    show ?thesis using e f by auto
  next
    case True
    show ?thesis
    proof (cases "buffer_bytes < 0")
      case neg: True
      then show ?thesis using True b by (simp add: IioSensor_readEvents_def Let_def)
    next
      case nonneg: False
      define s1 where "s1 = s\<lparr>iio_ops := iio_ops s @ [Refill b],
                              remaining_samples := c_div buffer_bytes sample_size\<rparr>"
      define res where "res = copy_out s1 sample_size cnt 0"
      have e: "IioSensor_readEvents sample_size buffer_bytes cnt s
                 = Some (fst res, fst (snd res), snd (snd res))"
        using True nonneg a b by (simp add: IioSensor_readEvents_def Let_def res_def s1_def)
      have f: "fst res = max 0 (min (remaining_samples s1) cnt)"
        by (simp add: res_def copy_out_fst)
      show ?thesis using e f by auto
    qed
  qed
qed


theorem readEvents_return_range_witness:
  "fst (GyroSensor_readEvents example_cfg (1, [sync_event]) 0 gyro_enabled) = -22 \<and>
   (let r = fst (GyroSensor_readEvents example_cfg (1, [sync_event]) 4 gyro_enabled)
    in r < 0 \<or> (0 \<le> r \<and> r \<le> 4)) \<and>
   iio_buf iio_enabled \<noteq> None \<and> (8 :: int) \<noteq> 0 \<and>
   (\<exists>r evs s'. IioSensor_readEvents 8 24 2 iio_enabled = Some (r, evs, s') \<and>
      (r < 0 \<or> (0 \<le> r \<and> r \<le> 2)))"
proof -
  have b: "iio_buf iio_enabled \<noteq> None \<and> (8 :: int) \<noteq> 0"
    by (simp add: iio_enabled_eq)
  have low: "fst (GyroSensor_readEvents example_cfg (1, [sync_event]) 0 gyro_enabled) = -22"
    using readEvents_return_range [of 0 example_cfg "(1, [sync_event])" gyro_enabled]
    by (simp add: EINVAL_def)
  have mid: "let r = fst (GyroSensor_readEvents example_cfg (1, [sync_event]) 4 gyro_enabled)
             in r < 0 \<or> (0 \<le> r \<and> r \<le> 4)"
    using readEvents_return_range [of 4 example_cfg "(1, [sync_event])" gyro_enabled]
    by simp
  have iio: "\<exists>r evs s'. IioSensor_readEvents 8 24 2 iio_enabled = Some (r, evs, s') \<and>
      (r < 0 \<or> (0 \<le> r \<and> r \<le> 2))"
    using b readEvents_return_range [of 2 example_cfg "(1, [sync_event])" gyro_enabled
        iio_enabled 8 24]
    by simp
  show ?thesis using b low mid iio by blast
qed

subsection \<open>Batch parameters\<close>

text \<open>
  Claim C6, as stated, fails for a call that carries another sensor's handle: with a
  valid period of 500000 ns, \<^verbatim>\<open>batch\<close> writes no attribute and returns \<open>-EINVAL\<close>,
  which is not the status of a frequency write.
\<close>

theorem batch_foreign_handle_rejected:
  "IioSensor_batch 0 0 11 0 500000 0 iio_enabled = (- EINVAL, iio_enabled) \<and>
   - EINVAL \<noteq> (0 :: int)"
  by (simp add: IioSensor_batch_def iio_enabled_eq hasSensor_def EINVAL_def)

text \<open>
  Claim C6, amended. \<^verbatim>\<open>batch\<close> returns \<open>-EINVAL\<close> and writes nothing when the handle
  is not the sensor's own or the sampling period is under 1000 ns. Otherwise it writes
  the max-latency attribute, whose result \<open>res_latency\<close> has no effect on what
  follows, then writes the sampling-frequency attribute with \<open>10\<^sup>9 / period\<close> Hz (the
  quotient is a \<^verbatim>\<open>double\<close> in the source and a real here), and returns the result
  \<open>res_freq\<close> of that write. A period of 500000 ns gives the frequency 2000.
\<close>

theorem batch_writes_latency_then_frequency:
  "(\<not> hasSensor s handle \<or> sampling_period_ns < 1000 \<longrightarrow>
      IioSensor_batch res_latency res_freq handle flags sampling_period_ns max_report_latency_ns s
        = (- EINVAL, s)) \<and>
   (hasSensor s handle \<and> 1000 \<le> sampling_period_ns \<longrightarrow>
      IioSensor_batch res_latency res_freq handle flags sampling_period_ns max_report_latency_ns s
        = (res_freq,
           s\<lparr>iio_ops := iio_ops s @
                [AttrWriteLonglong ''max_latency_ns'' max_report_latency_ns,
                 AttrWriteDouble ''in_sampling_frequency''
                   (1000000000 / of_int sampling_period_ns)]\<rparr>))"
  by (auto simp: IioSensor_batch_def Let_def)

theorem batch_writes_latency_then_frequency_witness:
  "IioSensor_batch 0 0 10 0 999 0 iio_enabled = (-22, iio_enabled) \<and>
   hasSensor iio_enabled 10 \<and> (1000 :: int) \<le> 500000 \<and>
   IioSensor_batch (-5) (-7) 10 0 500000 0 iio_enabled =
     (-7, iio_enabled\<lparr>iio_ops := iio_ops iio_enabled @
            [AttrWriteLonglong ''max_latency_ns'' 0,
             AttrWriteDouble ''in_sampling_frequency'' 2000]\<rparr>)"
proof -
  have h: "hasSensor iio_enabled 10" by (simp add: hasSensor_def iio_enabled_eq)
  have a: "IioSensor_batch 0 0 10 0 999 0 iio_enabled = (-22, iio_enabled)"
    using batch_writes_latency_then_frequency [of iio_enabled 10 999 0 0 0 0]
    by (simp add: EINVAL_def)
  have b: "IioSensor_batch (-5) (-7) 10 0 500000 0 iio_enabled =
     (-7, iio_enabled\<lparr>iio_ops := iio_ops iio_enabled @
            [AttrWriteLonglong ''max_latency_ns'' 0,
             AttrWriteDouble ''in_sampling_frequency'' 2000]\<rparr>)"
    using h batch_writes_latency_then_frequency [of iio_enabled 10 500000 "-5" "-7" 0 0]
    by simp
  show ?thesis using h a b by simp
qed


end
